theory Spec2Isabelle
  imports Main "HOL-Library.AList" "HOL-Library.Sublist"
begin


section \<open>The builder of \<^verbatim>\<open>lede/builder.py\<close>: data model\<close>

text \<open>
  The class \<^verbatim>\<open>Builder\<close> drives git repositories, a build tree on the local file system,
  external processes and a remote device. Every collaborator that the module only calls
  (GitPython, \<^verbatim>\<open>os\<close>, \<^verbatim>\<open>subprocess\<close>, the SSH manager) is a field of an environment
  record or an explicit state; every exception is a value of \<open>error\<close>; every
  observable action (a log record, a write, a call of a collaborator) is an \<open>event\<close>
  of the trace a method returns.
\<close>

datatype error =
    BuilderStop
  | KeyError string
  | AttributeError
  | TypeError
  | IndexError
  | FileNotFoundError string
  | OSError string
  | CalledProcessError "string list"
  | GitCommandError
  | RemoteError

datatype level = Debug | Info | Warning | Error

subsection \<open>Strings and paths\<close>

definition nl :: char where
  "nl = CHR 0x0A"

definition quoted :: "string \<Rightarrow> string" where
  \<comment> \<open>\<^verbatim>\<open>"'{}'".format(s)\<close>\<close>
  "quoted s = [CHR 0x27] @ s @ [CHR 0x27]"

definition startswith :: "string \<Rightarrow> string \<Rightarrow> bool" where
  \<comment> \<open>\<^verbatim>\<open>line.startswith(p)\<close>\<close>
  "startswith line p = prefix p line"

fun str_in :: "string \<Rightarrow> string \<Rightarrow> bool" where
  \<comment> \<open>\<^verbatim>\<open>sub in s\<close> on Python strings: \<open>sub\<close> occurs in \<open>s\<close> as a contiguous run\<close>
  "str_in sub [] = (sub = [])"
| "str_in sub (c # cs) = (prefix sub (c # cs) \<or> str_in sub cs)"

definition path_join2 :: "string \<Rightarrow> string \<Rightarrow> string" where
  \<comment> \<open>one step of \<^verbatim>\<open>posixpath.join\<close>\<close>
  "path_join2 path b =
     (if startswith b ''/'' then b
      else if path = [] \<or> last path = CHR ''/'' then path @ b
      else path @ ''/'' @ b)"

definition path_join :: "string \<Rightarrow> string list \<Rightarrow> string" where
  \<comment> \<open>\<^verbatim>\<open>os.path.join(a, *p)\<close>\<close>
  "path_join a p = foldl path_join2 a p"

subsection \<open>Git repositories\<close>

text \<open>
  A \<^verbatim>\<open>git.Repo\<close> as far as the module reads it: the working directory, the local heads,
  the remotes with the branch names each exposes, the active branch (\<open>None\<close> when HEAD is
  detached: \<^verbatim>\<open>repo.active_branch\<close> raises \<^verbatim>\<open>TypeError\<close> then), the tracking
  configuration, and the three diffs \<^verbatim>\<open>status\<close> prints.
\<close>

record git_remote =
  remote_name :: string
  refs :: "string list"

record diff =
  change_type :: string
  a_path :: string
  b_path :: string

record repo =
  working_dir :: string
  heads :: "string list"
  remotes :: "git_remote list"
  active_branch :: "string option"
  tracking :: "(string \<times> string \<times> string) list"
  indexed_files :: "diff list"
  staged_files :: "diff list"
  untracked_files :: "string list"

datatype repo_open =
    Opened repo
  | NoSuchPathError
  | InvalidGitRepositoryError

text \<open>The collaborators of the repository code.\<close>

record git_env =
  git_Repo :: "string \<Rightarrow> repo_open"
    \<comment> \<open>\<^verbatim>\<open>git.Repo(path)\<close>\<close>
  os_listdir :: "string \<Rightarrow> error + string list"
    \<comment> \<open>\<^verbatim>\<open>os.listdir(path)\<close>\<close>
  clone_from :: "string \<Rightarrow> string \<Rightarrow> string \<Rightarrow> error + repo"
    \<comment> \<open>\<^verbatim>\<open>git.Repo.clone_from(uri, path, branch=branch)\<close>\<close>
  remote_fetch :: "repo \<Rightarrow> git_remote \<Rightarrow> error + repo"
    \<comment> \<open>\<^verbatim>\<open>repo_remote.fetch()\<close>, giving the repository as it is afterwards\<close>
  remote_pull :: "repo \<Rightarrow> git_remote \<Rightarrow> error + repo"
    \<comment> \<open>\<^verbatim>\<open>repo_remote.pull()\<close>\<close>
  branch_checkout :: "repo \<Rightarrow> string \<Rightarrow> error + repo"
    \<comment> \<open>\<^verbatim>\<open>repo.heads[branch].checkout()\<close>\<close>

subsection \<open>Events\<close>

datatype printed = Plain string | Colored string string
  \<comment> \<open>an argument of \<^verbatim>\<open>print\<close>: a string, or \<^verbatim>\<open>colored(s, colour)\<close> of \<^verbatim>\<open>termcolor\<close>\<close>

datatype event =
    Log level string
  | GitClone string string string
  | GitFetch string string
  | GitPull string string
  | GitCreateHead string string string
  | GitCheckout string string
  | Print "printed list"
  | Exec "string option" "string list"
  | FileTruncate string
  | FileWrite string string
  | Stdout string
  | Stderr string
  | SshConnect string string "string option"
  | SftpOpen
  | SshRun "string list"
  | SftpChdir string
  | SftpWriteFile string string
  | SftpPut string string
  | SftpListdir string "error + string list"
  | SftpRemove string
  | SshClose

type_synonym store = "(string \<times> repo option) list"
  \<comment> \<open>\<^verbatim>\<open>self._repos\<close>, an \<^verbatim>\<open>OrderedDict\<close>: assignment keeps the position of a key
      already there and appends a new one, as \<open>AList.update\<close> does\<close>

section \<open>Repository initialisation\<close>

definition get_repo_path :: "string \<Rightarrow> string \<Rightarrow> string" where
  \<comment> \<open>\<^verbatim>\<open>Builder._get_repo_path\<close>; the first argument is \<^verbatim>\<open>self._build_dir\<close>\<close>
  "get_repo_path build_dir name = path_join build_dir [name]"

text \<open>
  One iteration of the loop of \<^verbatim>\<open>Builder._init_repos\<close> up to the assignment to
  \<^verbatim>\<open>self._repos[name]\<close>: the events, and either the exception that leaves the loop
  (\<^verbatim>\<open>os.listdir\<close> is not guarded) or the repository found and the new error flag.
\<close>

definition init_repo :: "git_env \<Rightarrow> string \<Rightarrow> string \<Rightarrow> bool
    \<Rightarrow> event list \<times> (error + repo option \<times> bool)" where
  "init_repo env build_dir name err =
     (let path = get_repo_path build_dir name;
          start = Log Debug (''Init repo '' @ quoted name @ '' in '' @ quoted path)
      in case git_Repo env path of
           Opened r \<Rightarrow> ([start], Inr (Some r, err))
         | NoSuchPathError \<Rightarrow>
             ([start, Log Debug (''Missing directory '' @ quoted path)], Inr (None, err))
         | InvalidGitRepositoryError \<Rightarrow>
             (case os_listdir env path of
                Inl e \<Rightarrow> ([start], Inl e)
              | Inr entries \<Rightarrow>
                  if entries \<noteq> [] then
                    ([start, Log Error (''Invalid Git repository '' @ quoted path)],
                     Inr (None, True))
                  else
                    ([start, Log Warning (''Empty Git repository '' @ quoted path)],
                     Inr (None, err))))"

fun init_repos_loop :: "git_env \<Rightarrow> string \<Rightarrow> string list \<Rightarrow> bool \<Rightarrow> store
    \<Rightarrow> event list \<times> store \<times> (error + bool)" where
  "init_repos_loop env build_dir [] err st = ([], st, Inr err)"
| "init_repos_loop env build_dir (name # names) err st =
     (case init_repo env build_dir name err of
        (evs, Inl e) \<Rightarrow> (evs, st, Inl e)
      | (evs, Inr (r, err')) \<Rightarrow>
          (case init_repos_loop env build_dir names err' (AList.update name r st) of
             (evs', res) \<Rightarrow> (evs @ evs', res)))"

definition init_repos :: "git_env \<Rightarrow> string \<Rightarrow> string list
    \<Rightarrow> event list \<times> store \<times> (error + unit)" where
  \<comment> \<open>\<^verbatim>\<open>Builder._init_repos\<close>, run by the constructor on the empty \<^verbatim>\<open>OrderedDict\<close>\<close>
  "init_repos env build_dir names =
     (case init_repos_loop env build_dir names False [] of
        (evs, st, Inl e) \<Rightarrow> (evs, st, Inl e)
      | (evs, st, Inr err) \<Rightarrow> (evs, st, if err then Inl BuilderStop else Inr ()))"

text \<open>What the file system holds at the path of a configured repository.\<close>

definition invalid_nonempty :: "git_env \<Rightarrow> string \<Rightarrow> string \<Rightarrow> bool" where
  \<comment> \<open>a directory with entries that is not a valid repository\<close>
  "invalid_nonempty env build_dir n =
     (case git_Repo env (get_repo_path build_dir n) of
        InvalidGitRepositoryError \<Rightarrow>
          (case os_listdir env (get_repo_path build_dir n) of
             Inr entries \<Rightarrow> entries \<noteq> []
           | Inl e \<Rightarrow> False)
      | _ \<Rightarrow> False)"

definition invalid_empty :: "git_env \<Rightarrow> string \<Rightarrow> string \<Rightarrow> bool" where
  \<comment> \<open>a directory without entries\<close>
  "invalid_empty env build_dir n =
     (case git_Repo env (get_repo_path build_dir n) of
        InvalidGitRepositoryError \<Rightarrow>
          (case os_listdir env (get_repo_path build_dir n) of
             Inr entries \<Rightarrow> entries = []
           | Inl e \<Rightarrow> False)
      | _ \<Rightarrow> False)"

definition listdir_fails :: "git_env \<Rightarrow> string \<Rightarrow> string \<Rightarrow> bool" where
  \<comment> \<open>not a repository and not a directory that can be listed (a regular file, say)\<close>
  "listdir_fails env build_dir n =
     (case git_Repo env (get_repo_path build_dir n) of
        InvalidGitRepositoryError \<Rightarrow>
          (case os_listdir env (get_repo_path build_dir n) of
             Inr entries \<Rightarrow> False
           | Inl e \<Rightarrow> True)
      | _ \<Rightarrow> False)"

fun is_error_log :: "event \<Rightarrow> bool" where
  "is_error_log (Log Error m) = True"
| "is_error_log _ = False"

definition invalid_msg :: "string \<Rightarrow> string \<Rightarrow> event" where
  "invalid_msg build_dir n =
     Log Error (''Invalid Git repository '' @ quoted (get_repo_path build_dir n))"

definition empty_msg :: "string \<Rightarrow> string \<Rightarrow> event" where
  "empty_msg build_dir n =
     Log Warning (''Empty Git repository '' @ quoted (get_repo_path build_dir n))"

section \<open>Preparing the repositories\<close>

text \<open>
  The named tuples that \<^verbatim>\<open>RemoteWalker\<close> yields. \<^verbatim>\<open>lede/config.py\<close> is not part of the
  sources at hand, so the list it yields is an argument of the loop below.
\<close>

record remote_spec =
  name :: string
  uri :: string
  branch :: string
  fetch :: bool

fun each_remote :: "(repo \<Rightarrow> git_remote \<Rightarrow> error + repo) \<Rightarrow> (string \<Rightarrow> event)
    \<Rightarrow> repo \<Rightarrow> git_remote list \<Rightarrow> event list \<times> repo \<times> error option" where
  \<comment> \<open>\<^verbatim>\<open>for repo_remote in repo.remotes: repo_remote.op()\<close>; the repository is returned
      as the last successful call left it\<close>
  "each_remote op ev r [] = ([], r, None)"
| "each_remote op ev r (rm # rms) =
     (case op r rm of
        Inl e \<Rightarrow> ([ev (remote_name rm)], r, Some e)
      | Inr r' \<Rightarrow>
          (case each_remote op ev r' rms of
             (evs, res) \<Rightarrow> (ev (remote_name rm) # evs, res)))"

definition clone_or_fetch :: "git_env \<Rightarrow> string \<Rightarrow> remote_spec \<Rightarrow> repo option
    \<Rightarrow> event list \<times> repo option \<times> error option" where
  \<comment> \<open>lines 205 to 213: \<^verbatim>\<open>if not repo: ... elif remote.fetch: ...\<close>\<close>
  "clone_or_fetch env build_dir rs ro =
     (case ro of
        None \<Rightarrow>
          (case clone_from env (uri rs) (get_repo_path build_dir (name rs)) (branch rs) of
             Inl e \<Rightarrow>
               ([Log Info (''Cloning remote '' @ quoted (name rs)),
                 GitClone (uri rs) (get_repo_path build_dir (name rs)) (branch rs)], None, Some e)
           | Inr r \<Rightarrow>
               ([Log Info (''Cloning remote '' @ quoted (name rs)),
                 GitClone (uri rs) (get_repo_path build_dir (name rs)) (branch rs)], Some r, None))
      | Some r \<Rightarrow>
          if fetch rs then
            (case each_remote (remote_fetch env) (GitFetch (name rs)) r (remotes r) of
               (evs, r', res) \<Rightarrow>
                 (Log Info (''Fetching remote '' @ quoted (name rs)) # evs, Some r', res))
          else ([], Some r, None))"

definition ensure_head :: "remote_spec \<Rightarrow> repo \<Rightarrow> event list \<times> repo \<times> error option" where
  \<comment> \<open>lines 214 to 222: the \<^verbatim>\<open>for\<close> loop with its \<^verbatim>\<open>else\<close> branch\<close>
  "ensure_head rs r =
     (if branch rs \<notin> set (heads r) then
        (case find (\<lambda>rm. branch rs \<in> set (refs rm)) (remotes r) of
           Some rm \<Rightarrow>
             ([GitCreateHead (name rs) (branch rs) (remote_name rm)],
              r\<lparr>heads := heads r @ [branch rs],
                tracking := AList.update (branch rs) (remote_name rm, branch rs) (tracking r)\<rparr>,
              None)
         | None \<Rightarrow>
             ([Log Error (''Branch '' @ quoted (branch rs) @ '' does not exist'')],
              r, Some BuilderStop))
      else ([], r, None))"

definition switch_branch :: "git_env \<Rightarrow> remote_spec \<Rightarrow> repo
    \<Rightarrow> event list \<times> repo \<times> error option" where
  \<comment> \<open>lines 223 to 225; \<^verbatim>\<open>repo.active_branch\<close> raises \<^verbatim>\<open>TypeError\<close> on a detached HEAD\<close>
  "switch_branch env rs r =
     (case active_branch r of
        None \<Rightarrow> ([], r, Some TypeError)
      | Some b \<Rightarrow>
          if b \<noteq> branch rs then
            (case branch_checkout env r (branch rs) of
               Inl e \<Rightarrow> ([GitCheckout (name rs) (branch rs)], r, Some e)
             | Inr r' \<Rightarrow> ([GitCheckout (name rs) (branch rs)], r', None))
          else ([], r, None))"

definition pull_all :: "git_env \<Rightarrow> remote_spec \<Rightarrow> repo
    \<Rightarrow> event list \<times> repo \<times> error option" where
  \<comment> \<open>lines 226 to 228\<close>
  "pull_all env rs r =
     (if fetch rs then each_remote (remote_pull env) (GitPull (name rs)) r (remotes r)
      else ([], r, None))"

definition prepare_repo :: "git_env \<Rightarrow> string \<Rightarrow> store \<Rightarrow> remote_spec
    \<Rightarrow> event list \<times> store \<times> error option" where
  \<comment> \<open>\<^verbatim>\<open>Builder._prepare_repo\<close>. The store holds a reference to the repository object, so
      it sees every change made to it, also when an exception leaves the method.\<close>
  "prepare_repo env build_dir st rs =
     (case map_of st (name rs) of
        None \<Rightarrow> ([], st, Some (KeyError (name rs)))
      | Some ro \<Rightarrow>
          (let start = Log Debug (''Start preparing remote '' @ quoted (name rs) @ '' in ''
                         @ quoted (get_repo_path build_dir (name rs)))
           in case clone_or_fetch env build_dir rs ro of
                (evs1, None, res1) \<Rightarrow> (start # evs1, st, res1)
              | (evs1, Some r1, Some e) \<Rightarrow>
                  (start # evs1, AList.update (name rs) (Some r1) st, Some e)
              | (evs1, Some r1, None) \<Rightarrow>
                  (case ensure_head rs r1 of
                     (evs2, r2, Some e) \<Rightarrow>
                       (start # evs1 @ evs2, AList.update (name rs) (Some r2) st, Some e)
                   | (evs2, r2, None) \<Rightarrow>
                       (case switch_branch env rs r2 of
                          (evs3, r3, Some e) \<Rightarrow>
                            (start # evs1 @ evs2 @ evs3,
                             AList.update (name rs) (Some r3) st, Some e)
                        | (evs3, r3, None) \<Rightarrow>
                            (case pull_all env rs r3 of
                               (evs4, r4, res) \<Rightarrow>
                                 (start # evs1 @ evs2 @ evs3 @ evs4,
                                  AList.update (name rs) (Some r4) st, res))))))"

fun prepare_repos :: "git_env \<Rightarrow> string \<Rightarrow> store \<Rightarrow> remote_spec list
    \<Rightarrow> event list \<times> store \<times> error option" where
  \<comment> \<open>the loop \<^verbatim>\<open>for remote in RemoteWalker(...): self._prepare_repo(remote)\<close> of
      \<^verbatim>\<open>Builder.prepare\<close>; an exception leaves the loop and \<^verbatim>\<open>prepare\<close>\<close>
  "prepare_repos env build_dir st [] = ([], st, None)"
| "prepare_repos env build_dir st (rs # rss) =
     (case prepare_repo env build_dir st rs of
        (evs, st', Some e) \<Rightarrow> (evs, st', Some e)
      | (evs, st', None) \<Rightarrow>
          (case prepare_repos env build_dir st' rss of
             (evs', res) \<Rightarrow> (evs @ evs', res)))"

definition branch_missing_msg :: "remote_spec \<Rightarrow> event" where
  "branch_missing_msg rs = Log Error (''Branch '' @ quoted (branch rs) @ '' does not exist'')"

definition start_msg :: "string \<Rightarrow> remote_spec \<Rightarrow> event" where
  "start_msg build_dir rs =
     Log Debug (''Start preparing remote '' @ quoted (name rs) @ '' in ''
       @ quoted (get_repo_path build_dir (name rs)))"

definition cloning_msg :: "remote_spec \<Rightarrow> event" where
  "cloning_msg rs = Log Info (''Cloning remote '' @ quoted (name rs))"

text \<open>The environment in which nothing exists at a path.\<close>

definition absent_at :: "git_env \<Rightarrow> string \<Rightarrow> git_env" where
  "absent_at env p = env\<lparr>git_Repo := (git_Repo env)(p := NoSuchPathError)\<rparr>"


section \<open>Status of the repositories\<close>

definition get_diff_path :: "diff \<Rightarrow> error + string" where
  \<comment> \<open>the local function \<^verbatim>\<open>get_diff_path\<close> of \<^verbatim>\<open>Builder.status\<close>; indexing an empty
      string raises \<^verbatim>\<open>IndexError\<close>\<close>
  "get_diff_path d =
     (case change_type d of
        [] \<Rightarrow> Inl IndexError
      | c # cs \<Rightarrow>
          if c = CHR ''R'' then Inr (a_path d @ '' -> '' @ b_path d) else Inr (a_path d))"

fun print_diffs :: "string \<Rightarrow> diff list \<Rightarrow> event list \<times> error option" where
  \<comment> \<open>the loops over \<^verbatim>\<open>indexed_files\<close> and \<^verbatim>\<open>staged_files\<close>\<close>
  "print_diffs colour [] = ([], None)"
| "print_diffs colour (d # ds) =
     (case change_type d of
        [] \<Rightarrow> ([], Some IndexError)
      | c # cs \<Rightarrow>
          (case get_diff_path d of
             Inl e \<Rightarrow> ([], Some e)
           | Inr p \<Rightarrow>
               (case print_diffs colour ds of
                  (evs, res) \<Rightarrow> (Print [Plain [CHR 0x09, c], Colored p colour] # evs, res))))"

definition diff_section :: "string \<Rightarrow> string \<Rightarrow> diff list \<Rightarrow> event list \<times> error option" where
  \<comment> \<open>\<^verbatim>\<open>if len(files): print(title); for ...: print(...); print()\<close>\<close>
  "diff_section title colour ds =
     (if length ds \<noteq> 0 then
        (case print_diffs colour ds of
           (evs, Some e) \<Rightarrow> (Print [Plain title] # evs, Some e)
         | (evs, None) \<Rightarrow> (Print [Plain title] # evs @ [Print []], None))
      else ([], None))"

definition untracked_section :: "string list \<Rightarrow> event list" where
  "untracked_section us =
     (if length us \<noteq> 0 then
        Print [Plain ''Untracked files:'']
          # map (\<lambda>u. Print [Colored (CHR 0x09 # u) ''red'']) us @ [Print []]
      else [])"

definition status_repo :: "string \<Rightarrow> repo option \<Rightarrow> event list \<times> error option" where
  \<comment> \<open>the body of the loop of \<^verbatim>\<open>Builder.status\<close>. \<^verbatim>\<open>repo.active_branch\<close> on \<^verbatim>\<open>None\<close>
      raises \<^verbatim>\<open>AttributeError\<close>: nothing guards it.\<close>
  "status_repo n ro =
     (case ro of
        None \<Rightarrow> ([], Some AttributeError)
      | Some r \<Rightarrow>
          (case active_branch r of
             None \<Rightarrow> ([], Some TypeError)
           | Some b \<Rightarrow>
               (let head = Log Info (''Status for '' @ quoted n @ '' ('' @ b @ '')'')
                in case diff_section ''Changes to be committed:'' ''green'' (indexed_files r) of
                     (evs1, Some e) \<Rightarrow> (head # evs1, Some e)
                   | (evs1, None) \<Rightarrow>
                       (case diff_section ''Changes not staged for commit:'' ''red''
                               (staged_files r) of
                          (evs2, Some e) \<Rightarrow> (head # evs1 @ evs2, Some e)
                        | (evs2, None) \<Rightarrow>
                            (let evs3 = untracked_section (untracked_files r);
                                 clean = (length (indexed_files r) = 0
                                   \<and> length (staged_files r) = 0
                                   \<and> length (untracked_files r) = 0)
                             in (head # evs1 @ evs2 @ evs3 @
                                  (if clean
                                   then [Print [Plain ''nothing to commit, working tree clean''],
                                         Print []]
                                   else []),
                                 None))))))"

fun status :: "store \<Rightarrow> event list \<times> error option" where
  \<comment> \<open>\<^verbatim>\<open>Builder.status\<close>: \<^verbatim>\<open>for name, repo in self._repos.items()\<close>\<close>
  "status [] = ([], None)"
| "status ((n, ro) # st) =
     (case status_repo n ro of
        (evs, Some e) \<Rightarrow> (evs, Some e)
      | (evs, None) \<Rightarrow> (case status st of (evs', res) \<Rightarrow> (evs @ evs', res)))"

definition reportable :: "repo option \<Rightarrow> bool" where
  \<comment> \<open>a cloned repository on a branch, whose diffs carry a change type\<close>
  "reportable ro =
     (case ro of
        None \<Rightarrow> False
      | Some r \<Rightarrow>
          active_branch r \<noteq> None
        \<and> list_all (\<lambda>d. change_type d \<noteq> []) (indexed_files r)
        \<and> list_all (\<lambda>d. change_type d \<noteq> []) (staged_files r))"

section \<open>The local file system, the configuration and the builder\<close>

text \<open>
  A text file is its content as Python's text mode delivers it, and its modification
  time. A character of the model is a code point below 256.
\<close>

record text_file =
  content :: string
  mtime :: nat

record world =
  files :: "string \<rightharpoonup> text_file"
  dirs :: "string set"
  environ :: "string \<rightharpoonup> string"
  now :: nat

definition os_path_exists :: "world \<Rightarrow> string \<Rightarrow> bool" where
  "os_path_exists w p = (files w p \<noteq> None \<or> p \<in> dirs w)"

definition open_w :: "world \<Rightarrow> string \<Rightarrow> world" where
  \<comment> \<open>\<^verbatim>\<open>open(p, 'w')\<close> truncates the file\<close>
  "open_w w p = w\<lparr>files := (files w)(p \<mapsto> \<lparr>content = [], mtime = now w\<rparr>)\<rparr>"

definition close_w :: "world \<Rightarrow> string \<Rightarrow> string \<Rightarrow> world" where
  \<comment> \<open>leaving the \<^verbatim>\<open>with\<close> block flushes what was written to the handle\<close>
  "close_w w p s = w\<lparr>files := (files w)(p \<mapsto> \<lparr>content = s, mtime = now w\<rparr>)\<rparr>"

fun file_lines :: "string \<Rightarrow> string list" where
  \<comment> \<open>\<^verbatim>\<open>for line in f\<close>: the lines of a text file, each with its newline\<close>
  "file_lines [] = []"
| "file_lines (c # cs) =
     (if c = nl then [c] # file_lines cs
      else (case file_lines cs of [] \<Rightarrow> [[c]] | l # ls \<Rightarrow> (c # l) # ls))"

definition is_linebreak :: "char \<Rightarrow> bool" where
  \<comment> \<open>the line boundaries of \<^verbatim>\<open>str.splitlines\<close> below 256: LF, VT, FF, CR, FS, GS, RS, NEL\<close>
  "is_linebreak c =
     (c = CHR 0x0A \<or> c = CHR 0x0B \<or> c = CHR 0x0C \<or> c = CHR 0x0D
      \<or> c = CHR 0x1C \<or> c = CHR 0x1D \<or> c = CHR 0x1E \<or> c = CHR 0x85)"

fun splitlines :: "string \<Rightarrow> string list" where
  \<comment> \<open>\<^verbatim>\<open>s.splitlines()\<close>; CR LF is one boundary\<close>
  "splitlines [] = []"
| "splitlines [c] = (if is_linebreak c then [[]] else [[c]])"
| "splitlines (c # d # ds) =
     (if c = CHR 0x0D \<and> d = CHR 0x0A then [] # splitlines ds
      else if is_linebreak c then [] # splitlines (d # ds)
      else (case splitlines (d # ds) of [] \<Rightarrow> [[c]] | l # ls \<Rightarrow> (c # l) # ls))"

fun split_on :: "char \<Rightarrow> string \<Rightarrow> string list" where
  \<comment> \<open>\<^verbatim>\<open>s.split(sep)\<close> for a separator of one character\<close>
  "split_on sep [] = [[]]"
| "split_on sep (c # cs) =
     (if c = sep then [] # split_on sep cs
      else (case split_on sep cs of [] \<Rightarrow> [[c]] | l # ls \<Rightarrow> (c # l) # ls))"

fun str_join :: "string \<Rightarrow> string list \<Rightarrow> string" where
  \<comment> \<open>\<^verbatim>\<open>sep.join(xs)\<close>\<close>
  "str_join sep [] = []"
| "str_join sep [x] = x"
| "str_join sep (x # y # ys) = x @ sep @ str_join sep (y # ys)"

definition ascii_lower :: "char \<Rightarrow> char" where
  \<comment> \<open>\<^verbatim>\<open>str.lower\<close> on the letters A to Z, which is what a MAC address has\<close>
  "ascii_lower c =
     (let k = (of_char c :: nat) in if 65 \<le> k \<and> k \<le> 90 then char_of (k + 32) else c)"

record config =
  build_config :: string
  feeds_create_always :: string
  feeds_update_always :: string
  feeds_install_always :: string
  miner_mac :: string
  deploy_target :: string
  deploy_remove_uuid :: string
  deploy_reboot :: string
  ssh_hostname :: "string option"
  ssh_password :: "string option"
  ssh_username :: string
  ssh_hostname_suffix :: "string option"

record builder =
  builder_config :: config
  builder_argv :: "string list"
  builder_build_dir :: string
  builder_working_dir :: "string option"
    \<comment> \<open>\<^verbatim>\<open>self._working_dir\<close>: \<^verbatim>\<open>None\<close> until \<^verbatim>\<open>prepare\<close> has set it\<close>
  builder_repos :: store

text \<open>The collaborators of the code that works on the build tree.\<close>

record sys_env =
  os_path_abspath :: "string \<Rightarrow> string"
  subprocess_run :: "string option \<Rightarrow> string list \<Rightarrow> world \<Rightarrow> world \<times> (error + string)"
    \<comment> \<open>\<^verbatim>\<open>subprocess.run(args, check=True, cwd=cwd)\<close>: the world the process leaves, and
        its decoded standard output or the exception of a non-zero exit\<close>

definition LEDE :: string where "LEDE = ''lede''"
definition LUCI :: string where "LUCI = ''luci''"
definition LINUX :: string where "LINUX = ''linux''"
definition CGMINER :: string where "CGMINER = ''cgminer''"
definition FEEDS_CONF_SRC :: string where "FEEDS_CONF_SRC = ''feeds.conf.default''"
definition FEEDS_CONF_DST :: string where "FEEDS_CONF_DST = ''feeds.conf''"
definition CONFIG_NAME :: string where "CONFIG_NAME = ''.config''"

definition dq :: char where
  "dq = CHR 0x22"

definition str_of_opt :: "string option \<Rightarrow> string" where
  \<comment> \<open>\<^verbatim>\<open>'{}'.format(x)\<close> for a string or \<^verbatim>\<open>None\<close>\<close>
  "str_of_opt x = (case x of None \<Rightarrow> ''None'' | Some s \<Rightarrow> s)"

definition run :: "builder \<Rightarrow> sys_env \<Rightarrow> string list \<Rightarrow> world
    \<Rightarrow> event list \<times> world \<times> (error + string)" where
  \<comment> \<open>\<^verbatim>\<open>Builder._run\<close> without the \<^verbatim>\<open>path\<close> and \<^verbatim>\<open>init\<close> arguments, which only
      \<^verbatim>\<open>build\<close> passes\<close>
  "run b env args w =
     (case subprocess_run env (builder_working_dir b) args w of
        (w', res) \<Rightarrow>
          ([Log Debug (''Run '' @ quoted (str_join '' '' args) @ '' in ''
              @ quoted (str_of_opt (builder_working_dir b))),
            Exec (builder_working_dir b) args], w', res))"

definition get_repo :: "builder \<Rightarrow> string \<Rightarrow> error + repo option" where
  \<comment> \<open>\<^verbatim>\<open>Builder._get_repo\<close>\<close>
  "get_repo b n = (case map_of (builder_repos b) n of None \<Rightarrow> Inl (KeyError n) | Some ro \<Rightarrow> Inr ro)"

definition repo_working_dir :: "builder \<Rightarrow> string \<Rightarrow> error + string" where
  \<comment> \<open>\<^verbatim>\<open>self._get_repo(name).working_dir\<close>\<close>
  "repo_working_dir b n =
     (case get_repo b n of
        Inl e \<Rightarrow> Inl e
      | Inr None \<Rightarrow> Inl AttributeError
      | Inr (Some r) \<Rightarrow> Inr (working_dir r))"

definition get_config_paths :: "builder \<Rightarrow> sys_env \<Rightarrow> error + string \<times> string" where
  \<comment> \<open>\<^verbatim>\<open>Builder._get_config_paths\<close>: the file named by \<^verbatim>\<open>build.config\<close> first, the
      \<^verbatim>\<open>.config\<close> of the build tree second; \<^verbatim>\<open>os.path.join(None, ...)\<close> raises\<close>
  "get_config_paths b env =
     (case builder_working_dir b of
        None \<Rightarrow> Inl TypeError
      | Some d \<Rightarrow>
          Inr (os_path_abspath env (build_config (builder_config b)), path_join d [CONFIG_NAME]))"

definition glibc_line :: string where
  "glibc_line = ''CONFIG_LIBC='' @ [dq] @ ''glibc'' @ [dq]"

definition use_glibc :: "builder \<Rightarrow> sys_env \<Rightarrow> world \<Rightarrow> error + bool" where
  \<comment> \<open>\<^verbatim>\<open>Builder._use_glibc\<close>\<close>
  "use_glibc b env w =
     (case get_config_paths b env of
        Inl e \<Rightarrow> Inl e
      | Inr (config_path, _) \<Rightarrow>
          (case files w config_path of
             None \<Rightarrow> Inl (FileNotFoundError config_path)
           | Some f \<Rightarrow>
               Inr (list_ex (\<lambda>line. startswith line glibc_line) (file_lines (content f)))))"

definition get_hostname :: "builder \<Rightarrow> string" where
  \<comment> \<open>\<^verbatim>\<open>Builder._get_hostname\<close>: \<^verbatim>\<open>mac.split(':')[-3:]\<close> are the last three fields, or
      all of them when there are fewer\<close>
  "get_hostname b =
     (let fields = split_on CHR '':'' (miner_mac (builder_config b))
      in ''miner-'' @ map ascii_lower (concat (drop (length fields - 3) fields)))"

section \<open>Feeds\<close>

definition feeds_link_line :: "string \<Rightarrow> string" where
  \<comment> \<open>\<^verbatim>\<open>'src-link {} {}\n'.format(self.LUCI, luci_dir)\<close>\<close>
  "feeds_link_line luci_dir = ''src-link '' @ LUCI @ '' '' @ luci_dir @ [nl]"

definition feeds_content :: "string \<Rightarrow> string \<Rightarrow> string" where
  \<comment> \<open>what lines 254 to 258 write: the template without the lines that mention
      \<^verbatim>\<open>luci\<close>, then the link line\<close>
  "feeds_content template luci_dir =
     concat (filter (\<lambda>line. \<not> str_in LUCI line) (file_lines template))
       @ feeds_link_line luci_dir"

definition feeds_step :: "builder \<Rightarrow> sys_env \<Rightarrow> bool \<Rightarrow> string \<Rightarrow> string \<Rightarrow> world
    \<Rightarrow> event list \<times> world \<times> error option" where
  \<comment> \<open>\<^verbatim>\<open>if required: logging.debug(msg); self._run('scripts/feeds', action, '-a')\<close>\<close>
  "feeds_step b env required msg action w =
     (if required then
        (case run b env [path_join ''scripts'' [''feeds''], action, ''-a''] w of
           (evs, w', res) \<Rightarrow>
             (Log Debug msg # evs, w', case res of Inl e \<Rightarrow> Some e | Inr out \<Rightarrow> None))
      else ([], w, None))"

definition feeds_steps :: "builder \<Rightarrow> sys_env \<Rightarrow> bool \<Rightarrow> bool \<Rightarrow> world
    \<Rightarrow> event list \<times> world \<times> error option" where
  \<comment> \<open>lines 260 to 265: the update and the install pass\<close>
  "feeds_steps b env feeds_update feeds_install w =
     (case feeds_step b env feeds_update ''Updating feeds'' ''update'' w of
        (evs1, w1, Some e) \<Rightarrow> (evs1, w1, Some e)
      | (evs1, w1, None) \<Rightarrow>
          (case feeds_step b env feeds_install ''Installing feeds'' ''install'' w1 of
             (evs2, res) \<Rightarrow> (evs1 @ evs2, res)))"

definition prepare_feeds :: "builder \<Rightarrow> sys_env \<Rightarrow> world
    \<Rightarrow> event list \<times> world \<times> error option" where
  \<comment> \<open>\<^verbatim>\<open>Builder._prepare_feeds\<close>\<close>
  "prepare_feeds b env w =
     (case repo_working_dir b LUCI of
        Inl e \<Rightarrow> ([Log Info ''Preparing feeds...''], w, Some e)
      | Inr luci_dir \<Rightarrow>
          (case builder_working_dir b of
             None \<Rightarrow> ([Log Info ''Preparing feeds...''], w, Some TypeError)
           | Some d \<Rightarrow>
               (let feeds_src_path = path_join d [FEEDS_CONF_SRC];
                    feeds_dst_path = path_join d [FEEDS_CONF_DST];
                    feeds_create = (feeds_create_always (builder_config b) = ''yes'');
                    feeds_update = (feeds_update_always (builder_config b) = ''yes'');
                    feeds_install = (feeds_install_always (builder_config b) = ''yes'')
                in if \<not> os_path_exists w feeds_dst_path \<or> feeds_create then
                     (case files w feeds_src_path of
                        None \<Rightarrow>
                          ([Log Info ''Preparing feeds...'',
                            Log Debug (''Creating '' @ quoted feeds_dst_path)],
                           w, Some (FileNotFoundError feeds_src_path))
                      | Some src \<Rightarrow>
                          (case feeds_steps b env True True
                                  (close_w (open_w w feeds_dst_path) feeds_dst_path
                                     (feeds_content (content src) luci_dir)) of
                             (evs, res) \<Rightarrow>
                               ([Log Info ''Preparing feeds...'',
                                 Log Debug (''Creating '' @ quoted feeds_dst_path),
                                 FileTruncate feeds_dst_path,
                                 FileWrite feeds_dst_path (feeds_content (content src) luci_dir)]
                                @ evs, res)))
                   else
                     (case feeds_steps b env feeds_update feeds_install w of
                        (evs, res) \<Rightarrow> (Log Info ''Preparing feeds...'' # evs, res)))))"

fun writes_to :: "string \<Rightarrow> event \<Rightarrow> bool" where
  \<comment> \<open>the builder opens the file at a path for writing\<close>
  "writes_to p (FileTruncate q) = (p = q)"
| "writes_to p (FileWrite q s) = (p = q)"
| "writes_to p _ = False"

definition process_keeps :: "sys_env \<Rightarrow> string \<Rightarrow> bool" where
  \<comment> \<open>no external process touches the file at a path\<close>
  "process_keeps env p =
     (\<forall>cwd args w. files (fst (subprocess_run env cwd args w)) p = files w p)"

section \<open>Interactive configuration\<close>

definition derived_keys :: "string list" where
  \<comment> \<open>the list \<^verbatim>\<open>configs\<close> of \<^verbatim>\<open>Builder._config_lede\<close>\<close>
  "derived_keys = [''CONFIG_EXTERNAL_KERNEL_TREE'', ''CONFIG_EXTERNAL_CGMINER_TREE'']"

definition diff_content :: "string \<Rightarrow> string" where
  \<comment> \<open>what lines 319 to 324 write for the output of \<^verbatim>\<open>diffconfig.sh\<close>\<close>
  "diff_content output =
     concat (map (\<lambda>line. line @ [nl])
       (filter (\<lambda>line. \<not> list_ex (\<lambda>k. startswith line k) derived_keys) (splitlines output)))"

definition config_lede :: "builder \<Rightarrow> sys_env \<Rightarrow> world
    \<Rightarrow> event list \<times> world \<times> error option" where
  \<comment> \<open>\<^verbatim>\<open>Builder._config_lede\<close>. The method binds the pair of \<^verbatim>\<open>_get_config_paths\<close> to
      \<^verbatim>\<open>config_dst_path, config_src_path\<close>: its destination is the file named by
      \<^verbatim>\<open>build.config\<close>, its source the \<^verbatim>\<open>.config\<close> of the build tree.\<close>
  "config_lede b env w =
     (case get_config_paths b env of
        Inl e \<Rightarrow> ([], w, Some e)
      | Inr (config_dst_path, config_src_path) \<Rightarrow>
          (case files w config_src_path of
             None \<Rightarrow> ([], w, Some (FileNotFoundError config_src_path))
           | Some f0 \<Rightarrow>
               (case run b env [''make'', ''menuconfig''] w of
                  (evs1, w1, Inl e) \<Rightarrow> (evs1, w1, Some e)
                | (evs1, w1, Inr out1) \<Rightarrow>
                    (case files w1 config_src_path of
                       None \<Rightarrow> (evs1, w1, Some (FileNotFoundError config_src_path))
                     | Some f1 \<Rightarrow>
                         if mtime f1 = mtime f0 then
                           (evs1 @ [Log Info ''Configuration file has not been changed''],
                            w1, None)
                         else
                           (case run b env [path_join ''scripts'' [''diffconfig.sh'']]
                                   (open_w w1 config_dst_path) of
                              (evs2, w2, Inl e) \<Rightarrow>
                                (evs1 @ [Log Info (''Saving changes in configuration to ''
                                           @ quoted config_dst_path @ ''...''),
                                         FileTruncate config_dst_path] @ evs2,
                                 w2, Some e)
                            | (evs2, w2, Inr output) \<Rightarrow>
                                (evs1 @ [Log Info (''Saving changes in configuration to ''
                                           @ quoted config_dst_path @ ''...''),
                                         FileTruncate config_dst_path] @ evs2
                                      @ [FileWrite config_dst_path (diff_content output)],
                                 close_w w2 config_dst_path (diff_content output), None))))))"

section \<open>Toolchain environment\<close>

definition export_path_line :: string where
  "export_path_line = ''export PATH='' @ [dq] @ ''${TOOLCHAIN}/bin:$PATH'' @ [dq] @ '';'' @ [nl]"

definition toolchain_names :: "bool \<Rightarrow> string \<times> string" where
  \<comment> \<open>lines 549 to 554: \<^verbatim>\<open>target_name\<close> and \<^verbatim>\<open>toolchain_name\<close>\<close>
  "toolchain_names glibc =
     (if glibc then
        (''target-arm_cortex-a9+neon_glibc-2.24_eabi'',
         ''toolchain-arm_cortex-a9+neon_gcc-5.4.0_glibc-2.24_eabi'')
      else
        (''target-arm_cortex-a9+neon_musl-1.1.16_eabi'',
         ''toolchain-arm_cortex-a9+neon_gcc-5.4.0_musl-1.1.16_eabi''))"

definition toolchain_dirs :: "string \<Rightarrow> bool \<Rightarrow> string \<times> string" where
  \<comment> \<open>lines 556 to 558: \<^verbatim>\<open>target_dir\<close> and \<^verbatim>\<open>toolchain_dir\<close>\<close>
  "toolchain_dirs wd glibc =
     (let staging_dir = path_join wd [''staging_dir'']
      in (path_join staging_dir [fst (toolchain_names glibc)],
          path_join staging_dir [snd (toolchain_names glibc)]))"

definition toolchain_output :: "builder \<Rightarrow> string \<Rightarrow> string \<Rightarrow> string \<Rightarrow> event list" where
  \<comment> \<open>lines 574 to 582: what is written to \<^verbatim>\<open>sys.stderr\<close> and \<^verbatim>\<open>sys.stdout\<close> once both
      directories are found\<close>
  "toolchain_output b target_dir toolchain_dir env_path =
     [Stderr (''# set environment with command:'' @ [nl]),
      Stderr (''# eval $(./lede.py '' @ str_join '' '' (builder_argv b) @ '' 2>/dev/null)'' @ [nl]),
      Stdout (''TARGET='' @ [dq] @ target_dir @ [dq] @ '';'' @ [nl]),
      Stdout (''TOOLCHAIN='' @ [dq] @ toolchain_dir @ [dq] @ '';'' @ [nl]),
      Stdout (''export STAGING_DIR='' @ [dq] @ ''${TARGET}'' @ [dq] @ '';'' @ [nl])]
     @ (if \<not> str_in (toolchain_dir @ ''/bin'') env_path then [Stdout export_path_line] else [])"

definition missing_dir :: "string \<Rightarrow> string \<Rightarrow> event list" where
  "missing_dir kind p =
     (let msg = kind @ '' directory '' @ quoted p @ '' does not exist''
      in [Log Error msg, Stdout (''echo '' @ msg @ '';'' @ [nl])])"

definition toolchain_start :: event where
  \<comment> \<open>line 547; the message ends with a quote character\<close>
  "toolchain_start = Log Info (''Preparing toolchain environment...'' @ [CHR 0x27])"

definition toolchain :: "builder \<Rightarrow> sys_env \<Rightarrow> world \<Rightarrow> event list \<times> error option" where
  \<comment> \<open>\<^verbatim>\<open>Builder.toolchain\<close>\<close>
  "toolchain b env w =
     (case use_glibc b env w of
        Inl e \<Rightarrow> ([toolchain_start], Some e)
      | Inr glibc \<Rightarrow>
          (case builder_working_dir b of
             None \<Rightarrow> ([toolchain_start], Some TypeError)
           | Some wd \<Rightarrow>
               (case toolchain_dirs wd glibc of
                  (target_dir, toolchain_dir) \<Rightarrow>
                    if \<not> os_path_exists w target_dir then
                      (toolchain_start
                         # missing_dir ''Target'' target_dir, Some BuilderStop)
                    else if \<not> os_path_exists w toolchain_dir then
                      (toolchain_start
                         # missing_dir ''Toolchain'' toolchain_dir, Some BuilderStop)
                    else
                      (toolchain_start
                         # toolchain_output b target_dir toolchain_dir
                             (case environ w ''PATH'' of None \<Rightarrow> [] | Some p \<Rightarrow> p),
                       None))))"

fun stdout_of :: "event list \<Rightarrow> string list" where
  \<comment> \<open>what a trace writes to the standard output\<close>
  "stdout_of [] = []"
| "stdout_of (Stdout s # evs) = s # stdout_of evs"
| "stdout_of (e # evs) = stdout_of evs"

definition path_component :: "string \<Rightarrow> string \<Rightarrow> bool" where
  \<comment> \<open>a directory is one of the fields of a \<^verbatim>\<open>PATH\<close> value, which colons separate\<close>
  "path_component dir env_path = (dir \<in> set (split_on CHR '':'' env_path))"

definition with_path :: "world \<Rightarrow> string \<Rightarrow> world" where
  \<comment> \<open>the world with another value of \<^verbatim>\<open>PATH\<close>\<close>
  "with_path w p = w\<lparr>environ := (environ w)(''PATH'' \<mapsto> p)\<rparr>"

section \<open>Deployment\<close>

text \<open>
  The target device is a state machine: an operation of the SSH session or of its SFTP
  channel either fails or leaves the device in a new state. \<^verbatim>\<open>lede/ssh.py\<close> is not part
  of the sources at hand; \<^verbatim>\<open>SSHManager\<close> is a context manager, so the session opened
  by the \<^verbatim>\<open>with\<close> statement is closed on every path out of its block.
\<close>

record 'd device =
  dev_step :: "'d \<Rightarrow> event \<Rightarrow> error + 'd"
  dev_listdir :: "'d \<Rightarrow> string \<Rightarrow> error + string list"

record image =
  boot_bin :: string
  fit_itb :: string

fun is_log :: "event \<Rightarrow> bool" where
  "is_log (Log l m) = True"
| "is_log _ = False"

fun perform :: "'d device \<Rightarrow> 'd \<Rightarrow> event list \<Rightarrow> event list \<times> 'd \<times> error option" where
  \<comment> \<open>statements run in sequence: a log record is written, a remote operation is tried on
      the device, and the first failure ends the sequence\<close>
  "perform dev d [] = ([], d, None)"
| "perform dev d (a # as) =
     (if is_log a then
        (case perform dev d as of (evs, res) \<Rightarrow> (a # evs, res))
      else
        (case dev_step dev d a of
           Inl e \<Rightarrow> ([a], d, Some e)
         | Inr d' \<Rightarrow> (case perform dev d' as of (evs, res) \<Rightarrow> (a # evs, res))))"

definition uenv :: "builder \<Rightarrow> string" where
  \<comment> \<open>\<^verbatim>\<open>Builder._write_uenv\<close>\<close>
  "uenv b = ''ethaddr='' @ miner_mac (builder_config b) @ [nl]"

definition deploy_hostname :: "builder \<Rightarrow> string" where
  \<comment> \<open>lines 433 to 440\<close>
  "deploy_hostname b =
     (case ssh_hostname (builder_config b) of
        Some (c # cs) \<Rightarrow> c # cs
      | _ \<Rightarrow>
          get_hostname b
            @ (case ssh_hostname_suffix (builder_config b) of None \<Rightarrow> [] | Some s \<Rightarrow> s))"

definition partition1 :: "builder \<Rightarrow> image \<Rightarrow> event list" where
  \<comment> \<open>lines 443 to 457\<close>
  "partition1 b img =
     [SftpOpen,
      SshRun [''mount'', ''/dev/mmcblk0p1'', ''/mnt''],
      SftpChdir ''/mnt'',
      Log Info (''Creating '' @ quoted ''uEnv.txt'' @ ''...''),
      SftpWriteFile ''uEnv.txt'' (uenv b),
      Log Info (''Loading '' @ quoted ''BOOT.bin'' @ ''...''),
      SftpPut (boot_bin img) ''BOOT.bin'',
      Log Info (''Loading '' @ quoted ''fit.itb'' @ ''...''),
      SftpPut (fit_itb img) ''fit.itb'',
      SshRun [''umount'', ''/mnt'']]"

definition mount2 :: "event list" where
  \<comment> \<open>lines 460 and 461\<close>
  "mount2 = [SshRun [''mount'', ''/dev/mmcblk0p2'', ''/mnt''], SftpChdir ''/mnt'']"

definition remove_marker :: "event list" where
  \<comment> \<open>lines 463 and 464\<close>
  "remove_marker = [Log Info ''Removing extroot UUID...'', SftpRemove ''etc/.extroot-uuid'']"

definition finish :: "builder \<Rightarrow> event list" where
  \<comment> \<open>lines 465 to 469\<close>
  "finish b =
     SshRun [''umount'', ''/mnt'']
       # (if deploy_reboot (builder_config b) = ''yes'' then [SshRun [''reboot'']] else [])"

definition clean_uuid :: "builder \<Rightarrow> 'd device \<Rightarrow> 'd \<Rightarrow> event list \<times> 'd \<times> error option" where
  \<comment> \<open>lines 462 to 464; \<^verbatim>\<open>and\<close> does not call \<^verbatim>\<open>listdir\<close> when the flag is not set\<close>
  "clean_uuid b dev d =
     (if deploy_remove_uuid (builder_config b) = ''yes'' then
        (case dev_listdir dev d ''etc'' of
           Inl e \<Rightarrow> ([SftpListdir ''etc'' (Inl e)], d, Some e)
         | Inr entries \<Rightarrow>
             if ''.extroot-uuid'' \<in> set entries then
               (case perform dev d remove_marker of
                  (evs, res) \<Rightarrow> (SftpListdir ''etc'' (Inr entries) # evs, res))
             else ([SftpListdir ''etc'' (Inr entries)], d, None))
      else ([], d, None))"

definition deploy_body :: "builder \<Rightarrow> 'd device \<Rightarrow> 'd \<Rightarrow> image
    \<Rightarrow> event list \<times> 'd \<times> error option" where
  \<comment> \<open>the block of the \<^verbatim>\<open>with\<close> statement of \<^verbatim>\<open>Builder._deploy_ssh_sd\<close>\<close>
  "deploy_body b dev d img =
     (case perform dev d (partition1 b img @ mount2) of
        (evs1, d1, Some e) \<Rightarrow> (evs1, d1, Some e)
      | (evs1, d1, None) \<Rightarrow>
          (case clean_uuid b dev d1 of
             (evs2, d2, Some e) \<Rightarrow> (evs1 @ evs2, d2, Some e)
           | (evs2, d2, None) \<Rightarrow>
               (case perform dev d2 (finish b) of
                  (evs3, res) \<Rightarrow> (evs1 @ evs2 @ evs3, res))))"

definition deploy_ssh_sd :: "builder \<Rightarrow> 'd device \<Rightarrow> 'd \<Rightarrow> image
    \<Rightarrow> event list \<times> 'd \<times> error option" where
  \<comment> \<open>\<^verbatim>\<open>Builder._deploy_ssh_sd\<close>\<close>
  "deploy_ssh_sd b dev d img =
     (let connect = SshConnect (deploy_hostname b) (ssh_username (builder_config b))
                      (ssh_password (builder_config b))
      in case dev_step dev d connect of
           Inl e \<Rightarrow> ([connect], d, Some e)
         | Inr d0 \<Rightarrow>
             (case deploy_body b dev d0 img of
                (evs, d', res) \<Rightarrow> (connect # evs @ [SshClose], d', res)))"

definition deploy_image :: "string \<Rightarrow> bool \<Rightarrow> image" where
  \<comment> \<open>lines 481 to 487\<close>
  "deploy_image wd glibc =
     (let generic_dir = path_join wd [''bin'', ''targets'', ''zynq'',
                          if \<not> glibc then ''generic'' else ''generic-glibc'']
      in \<lparr>boot_bin = path_join generic_dir [''uboot-zynq-miner-sd'', ''BOOT.bin''],
          fit_itb = path_join generic_dir [''lede-zynq-miner-sd-squashfs-fit.itb'']\<rparr>)"

definition deploy :: "builder \<Rightarrow> sys_env \<Rightarrow> world \<Rightarrow> 'd device \<Rightarrow> 'd
    \<Rightarrow> event list \<times> 'd \<times> error option" where
  \<comment> \<open>\<^verbatim>\<open>Builder.deploy\<close>\<close>
  "deploy b env w dev d =
     (case use_glibc b env w of
        Inl e \<Rightarrow> ([Log Info ''Start deploying Miner firmware...''], d, Some e)
      | Inr glibc \<Rightarrow>
          (case builder_working_dir b of
             None \<Rightarrow> ([Log Info ''Start deploying Miner firmware...''], d, Some TypeError)
           | Some wd \<Rightarrow>
               if deploy_target (builder_config b) = ''sd'' then
                 (case deploy_ssh_sd b dev d (deploy_image wd glibc) of
                    (evs, res) \<Rightarrow> (Log Info ''Start deploying Miner firmware...'' # evs, res))
               else
                 ([Log Info ''Start deploying Miner firmware...'',
                   Log Error (''Unsupported target '' @ quoted (deploy_target (builder_config b))
                     @ '' for firmware image'')],
                  d, None)))"

fun is_remote :: "event \<Rightarrow> bool" where
  \<comment> \<open>an operation on the target device\<close>
  "is_remote (SshConnect h u p) = True"
| "is_remote SftpOpen = True"
| "is_remote (SshRun args) = True"
| "is_remote (SftpChdir p) = True"
| "is_remote (SftpWriteFile p s) = True"
| "is_remote (SftpPut l r) = True"
| "is_remote (SftpListdir p res) = True"
| "is_remote (SftpRemove p) = True"
| "is_remote SshClose = True"
| "is_remote _ = False"



text \<open>A listing of \<^verbatim>\<open>etc\<close> in the trace holds the marker file.\<close>

fun shows_marker :: "event \<Rightarrow> bool" where
  "shows_marker (SftpListdir p (Inr entries)) = (p = ''etc'' \<and> ''.extroot-uuid'' \<in> set entries)"
| "shows_marker _ = False"

definition marker_seen :: "event list \<Rightarrow> bool" where
  "marker_seen evs = list_ex shows_marker evs"


section \<open>Readings of the specification that the code is compared with\<close>

definition use_glibc_at_destination :: "builder \<Rightarrow> sys_env \<Rightarrow> world \<Rightarrow> error + bool" where
  \<comment> \<open>the variant check as the specification words it: on the build configuration file
      at the destination path, the \<^verbatim>\<open>.config\<close> inside the build tree\<close>
  "use_glibc_at_destination b env w =
     (case get_config_paths b env of
        Inl e \<Rightarrow> Inl e
      | Inr (_, destination_path) \<Rightarrow>
          (case files w destination_path of
             None \<Rightarrow> Inl (FileNotFoundError destination_path)
           | Some f \<Rightarrow>
               Inr (list_ex (\<lambda>line. startswith line glibc_line) (file_lines (content f)))))"

section \<open>Concrete inputs\<close>

definition ex_repo :: repo where
  "ex_repo = \<lparr>working_dir = ''/build/lede'', heads = [''master''],
     remotes = [\<lparr>remote_name = ''origin'', refs = [''master'', ''next'']\<rparr>],
     active_branch = Some ''master'', tracking = [],
     indexed_files = [], staged_files = [], untracked_files = []\<rparr>"

definition ex_env :: git_env where
  "ex_env = \<lparr>
     git_Repo = (\<lambda>p. if p = ''/build/lede'' then Opened ex_repo
                     else if p = ''/build/luci'' \<or> p = ''/build/linux'' then InvalidGitRepositoryError
                     else NoSuchPathError),
     os_listdir = (\<lambda>p. if p = ''/build/luci'' then Inr [''README'']
                     else if p = ''/build/linux'' then Inr []
                     else Inl (OSError p)),
     clone_from = (\<lambda>u p b. Inr (ex_repo\<lparr>working_dir := p, heads := [b], active_branch := Some b\<rparr>)),
     remote_fetch = (\<lambda>r rm. Inr r),
     remote_pull = (\<lambda>r rm. Inr r),
     branch_checkout = (\<lambda>r b. Inr (r\<lparr>active_branch := Some b\<rparr>))\<rparr>"

definition ex_names :: "string list" where
  "ex_names = [''lede'', ''luci'', ''linux'', ''cgminer'']"

definition ex_store :: store where
  "ex_store = [(''lede'', Some ex_repo), (''luci'', None), (''linux'', None), (''cgminer'', None)]"

definition ex_remotes :: "remote_spec list" where
  "ex_remotes =
     [\<lparr>name = ''lede'', uri = ''git://host/lede'', branch = ''next'', fetch = False\<rparr>,
      \<lparr>name = ''luci'', uri = ''git://host/luci'', branch = ''master'', fetch = False\<rparr>,
      \<lparr>name = ''lede'', uri = ''git://host/lede'', branch = ''v9'', fetch = True\<rparr>,
      \<lparr>name = ''linux'', uri = ''git://host/linux'', branch = ''master'', fetch = False\<rparr>]"

definition ex_store2 :: store where
  \<comment> \<open>the store after \<^verbatim>\<open>lede\<close> was switched to \<^verbatim>\<open>next\<close> and \<^verbatim>\<open>luci\<close> was cloned\<close>
  "ex_store2 =
     [(''lede'', Some (ex_repo\<lparr>heads := [''master'', ''next''], active_branch := Some ''next'',
                        tracking := [(''next'', ''origin'', ''next'')]\<rparr>)),
      (''luci'', Some (ex_repo\<lparr>working_dir := ''/build/luci''\<rparr>)),
      (''linux'', None), (''cgminer'', None)]"

definition ex_env_strict :: git_env where
  \<comment> \<open>the example environment, where a clone fails for a branch the remote does not have\<close>
  "ex_env_strict = ex_env\<lparr>clone_from := (\<lambda>u p b.
     if b \<in> set [''master'', ''next'']
     then Inr (ex_repo\<lparr>working_dir := p, heads := [b], active_branch := Some b\<rparr>)
     else Inl GitCommandError)\<rparr>"

definition ex_remotes_fresh :: "remote_spec list" where
  \<comment> \<open>two repositories that are not cloned yet; nothing has the branch of the first\<close>
  "ex_remotes_fresh =
     [\<lparr>name = ''luci'', uri = ''git://host/luci'', branch = ''v9'', fetch = False\<rparr>,
      \<lparr>name = ''linux'', uri = ''git://host/linux'', branch = ''master'', fetch = False\<rparr>]"

definition ex_config :: config where
  "ex_config = \<lparr>
     build_config = ''/src/configs/default.config'',
     feeds_create_always = ''no'',
     feeds_update_always = ''no'',
     feeds_install_always = ''yes'',
     miner_mac = ''00:0A:35:FF:EE:01'',
     deploy_target = ''sd'',
     deploy_remove_uuid = ''yes'',
     deploy_reboot = ''no'',
     ssh_hostname = None,
     ssh_password = None,
     ssh_username = ''root'',
     ssh_hostname_suffix = Some ''.lan''\<rparr>"

definition ex_builder :: builder where
  "ex_builder = \<lparr>
     builder_config = ex_config,
     builder_argv = [''toolchain''],
     builder_build_dir = ''/build'',
     builder_working_dir = Some ''/build/lede'',
     builder_repos = ex_store2\<rparr>"

definition ex_diff :: string where
  \<comment> \<open>an output of \<^verbatim>\<open>diffconfig.sh\<close>\<close>
  "ex_diff = ''CONFIG_TARGET_zynq=y'' @ [nl]
     @ ''CONFIG_EXTERNAL_KERNEL_TREE='' @ [dq] @ ''/build/linux'' @ [dq] @ [nl]
     @ ''CONFIG_LIBC='' @ [dq] @ ''glibc'' @ [dq] @ [nl]
     @ ''CONFIG_EXTERNAL_CGMINER_TREE='' @ [dq] @ ''/build/cgminer'' @ [dq] @ [nl]"

definition ex_sys :: sys_env where
  \<comment> \<open>\<^verbatim>\<open>make menuconfig\<close> saves the \<^verbatim>\<open>.config\<close> of the build tree; no other process
      changes a file\<close>
  "ex_sys = \<lparr>
     os_path_abspath = (\<lambda>p. p),
     subprocess_run = (\<lambda>cwd args w.
       if args = [''make'', ''menuconfig''] then
         (w\<lparr>files := (files w)(''/build/lede/.config'' \<mapsto>
               \<lparr>content = ''CONFIG_TARGET_zynq=y'' @ [nl], mtime = Suc (now w)\<rparr>),
            now := Suc (now w)\<rparr>, Inr [])
       else if args = [''scripts/diffconfig.sh''] then (w, Inr ex_diff)
       else (w, Inr []))\<rparr>"

definition ex_world :: world where
  "ex_world = \<lparr>
     files = [''/src/configs/default.config'' \<mapsto>
                \<lparr>content = ''CONFIG_LIBC='' @ [dq] @ ''glibc'' @ [dq] @ [nl], mtime = 5\<rparr>,
              ''/build/lede/.config'' \<mapsto>
                \<lparr>content = ''CONFIG_LIBC='' @ [dq] @ ''musl'' @ [dq] @ [nl], mtime = 7\<rparr>,
              ''/build/lede/feeds.conf.default'' \<mapsto>
                \<lparr>content = ''src-git packages https://host/packages.git'' @ [nl]
                   @ ''src-git luci https://host/luci.git'' @ [nl], mtime = 3\<rparr>],
     dirs = {''/build'', ''/build/lede'', ''/build/lede/staging_dir'',
             ''/build/lede/staging_dir/target-arm_cortex-a9+neon_glibc-2.24_eabi'',
             ''/build/lede/staging_dir/toolchain-arm_cortex-a9+neon_gcc-5.4.0_glibc-2.24_eabi''},
     environ = [''PATH'' \<mapsto> ''/usr/bin:/bin''],
     now = 10\<rparr>"

definition ex_path_old :: string where
  "ex_path_old = ''/build/lede/staging_dir/toolchain-arm_cortex-a9+neon_gcc-5.4.0_glibc-2.24_eabi/bin-old:/usr/bin''"
definition ex_path_set :: string where
  "ex_path_set = ''/build/lede/staging_dir/toolchain-arm_cortex-a9+neon_gcc-5.4.0_glibc-2.24_eabi/bin:/usr/bin''"
definition ex_bin :: string where
  "ex_bin = ''/build/lede/staging_dir/toolchain-arm_cortex-a9+neon_gcc-5.4.0_glibc-2.24_eabi/bin''"

definition ex_nand :: builder where
  \<comment> \<open>the example builder with a deploy target that is not supported\<close>
  "ex_nand = ex_builder\<lparr>builder_config := ex_config\<lparr>deploy_target := ''nand''\<rparr>\<rparr>"

definition ex_device :: "nat device" where
  \<comment> \<open>a device that carries out every operation and counts them; its \<^verbatim>\<open>etc\<close> holds the
      marker file\<close>
  "ex_device = \<lparr>
     dev_step = (\<lambda>d a. Inr (Suc d)),
     dev_listdir = (\<lambda>d p. Inr [''.extroot-uuid'', ''config'', ''passwd''])\<rparr>"


definition ex_world_fed :: world where
  \<comment> \<open>the example world after a first run of the feed preparation\<close>
  "ex_world_fed = fst (snd (prepare_feeds ex_builder ex_sys ex_world))"

definition ex_world_menu :: world where
  \<comment> \<open>the example world after \<^verbatim>\<open>make menuconfig\<close>\<close>
  "ex_world_menu = ex_world\<lparr>
     files := (files ex_world)(''/build/lede/.config'' \<mapsto>
       \<lparr>content = ''CONFIG_TARGET_zynq=y'' @ [nl], mtime = 11\<rparr>),
     now := 11\<rparr>"



section \<open>Properties of repository initialisation\<close>

lemma init_repo_ok:
  assumes "\<not> listdir_fails env bd n"
  shows "\<exists>evs r. init_repo env bd n err = (evs, Inr (r, err \<or> invalid_nonempty env bd n))
     \<and> filter is_error_log evs = (if invalid_nonempty env bd n then [invalid_msg bd n] else [])
     \<and> (invalid_nonempty env bd n \<longrightarrow> r = None)"
  using assms
  by (auto simp: init_repo_def listdir_fails_def invalid_nonempty_def invalid_msg_def Let_def
      split: repo_open.splits sum.splits)

lemma init_repos_loop_ok:
  assumes "\<forall>n\<in>set names. \<not> listdir_fails env bd n"
  shows "\<exists>evs st'. init_repos_loop env bd names err st
            = (evs, st', Inr (err \<or> (\<exists>n\<in>set names. invalid_nonempty env bd n)))
     \<and> filter is_error_log evs = map (invalid_msg bd) (filter (invalid_nonempty env bd) names)
     \<and> fst ` set st' = fst ` set st \<union> set names
     \<and> (\<forall>n\<in>set names. invalid_nonempty env bd n \<longrightarrow> map_of st' n = Some None)
     \<and> (\<forall>n. n \<notin> set names \<longrightarrow> map_of st' n = map_of st n)"
  using assms
proof (induction names arbitrary: err st)
  case Nil
  then show ?case by simp
next
  case (Cons a names)
  from Cons.prems have a: "\<not> listdir_fails env bd a" by simp
  from init_repo_ok[OF a, of err] obtain evs r where
    r: "init_repo env bd a err = (evs, Inr (r, err \<or> invalid_nonempty env bd a))"
     "filter is_error_log evs = (if invalid_nonempty env bd a then [invalid_msg bd a] else [])"
     "invalid_nonempty env bd a \<longrightarrow> r = None" by blast
  from Cons.prems have "\<forall>n\<in>set names. \<not> listdir_fails env bd n" by simp
  from Cons.IH[OF this, of "err \<or> invalid_nonempty env bd a" "AList.update a r st"]
  obtain evs' st' where
    l: "init_repos_loop env bd names (err \<or> invalid_nonempty env bd a) (AList.update a r st)
          = (evs', st', Inr ((err \<or> invalid_nonempty env bd a) \<or> (\<exists>n\<in>set names. invalid_nonempty env bd n)))"
     "filter is_error_log evs' = map (invalid_msg bd) (filter (invalid_nonempty env bd) names)"
     "fst ` set st' = fst ` set (AList.update a r st) \<union> set names"
     "\<forall>n\<in>set names. invalid_nonempty env bd n \<longrightarrow> map_of st' n = Some None"
     "\<forall>n. n \<notin> set names \<longrightarrow> map_of st' n = map_of (AList.update a r st) n"
    by blast
  show ?case
    using r l by (auto simp: AList.update_conv' dom_update)
qed

text \<open>
  Claim C2. Where every configured path that is not a repository can be listed,
  initialisation logs one error for each configured path that holds a non-empty directory
  which is not a valid repository, in the configured order and for no other path; it
  goes through the whole list (every configured name gets its entry in the store, and
  the invalid ones are stored as \<open>None\<close>); and it ends with the one \<^verbatim>\<open>BuilderStop\<close>,
  raised after the loop, exactly when there was such a path.
\<close>

theorem init_repos_batches_errors:
  assumes "\<forall>n\<in>set names. \<not> listdir_fails env build_dir n"
  shows "case init_repos env build_dir names of
           (evs, st, res) \<Rightarrow>
             filter is_error_log evs
               = map (invalid_msg build_dir) (filter (invalid_nonempty env build_dir) names)
           \<and> fst ` set st = set names
           \<and> (\<forall>n\<in>set names. invalid_nonempty env build_dir n \<longrightarrow> map_of st n = Some None)
           \<and> res = (if \<exists>n\<in>set names. invalid_nonempty env build_dir n
                    then Inl BuilderStop else Inr ())"
proof -
  from init_repos_loop_ok[OF assms, of False "[]"] obtain evs st where
    "init_repos_loop env build_dir names False []
       = (evs, st, Inr (\<exists>n\<in>set names. invalid_nonempty env build_dir n))"
    "filter is_error_log evs
       = map (invalid_msg build_dir) (filter (invalid_nonempty env build_dir) names)"
    "fst ` set st = set names"
    "\<forall>n\<in>set names. invalid_nonempty env build_dir n \<longrightarrow> map_of st n = Some None"
    by auto
  then show ?thesis
    by (simp add: init_repos_def)
qed

lemma ex_paths: "get_repo_path ''/build'' ''lede'' = ''/build/lede''"
 "get_repo_path ''/build'' ''luci'' = ''/build/luci''"
 "get_repo_path ''/build'' ''linux'' = ''/build/linux''"
 "get_repo_path ''/build'' ''cgminer'' = ''/build/cgminer''"
  by (simp_all add: get_repo_path_def path_join_def path_join2_def startswith_def)

text \<open>
  Four configured repositories: a valid one, a non-empty directory, an empty directory
  and a missing path. The error of the second does not stop the scan of the last two.
\<close>

theorem init_repos_batches_errors_witness:
  "list_all (\<lambda>n. \<not> listdir_fails ex_env ''/build'' n) ex_names
   \<and> (case init_repos ex_env ''/build'' ex_names of
        (evs, st, res) \<Rightarrow>
          filter is_error_log evs = [invalid_msg ''/build'' ''luci'']
        \<and> fst ` set st = {''lede'', ''luci'', ''linux'', ''cgminer''}
        \<and> map_of st ''luci'' = Some None
        \<and> res = Inl BuilderStop)"
proof -
  have h: "\<forall>n\<in>set ex_names. \<not> listdir_fails ex_env ''/build'' n"
    by (simp add: ex_names_def listdir_fails_def ex_env_def ex_paths)
  have i: "filter (invalid_nonempty ex_env ''/build'') ex_names = [''luci'']"
    by (simp add: ex_names_def invalid_nonempty_def ex_env_def ex_paths)
  have j: "\<exists>n\<in>set ex_names. invalid_nonempty ex_env ''/build'' n"
    by (simp add: ex_names_def invalid_nonempty_def ex_env_def ex_paths)
  have k: "invalid_nonempty ex_env ''/build'' ''luci''"
    by (simp add: invalid_nonempty_def ex_env_def ex_paths)
  show ?thesis
    using init_repos_batches_errors[OF h] h i j k
    by (auto simp: ex_names_def list_all_iff split: prod.splits)
qed

lemma init_repo_absent:
  assumes "invalid_empty env bd n"
  shows "snd (init_repo (absent_at env (get_repo_path bd n)) bd m err)
       = snd (init_repo env bd m err)"
  using assms
  by (auto simp: init_repo_def absent_at_def invalid_empty_def Let_def
      split: repo_open.splits sum.splits)

lemma init_repos_loop_absent:
  assumes "invalid_empty env bd n"
  shows "snd (init_repos_loop (absent_at env (get_repo_path bd n)) bd names err st)
       = snd (init_repos_loop env bd names err st)"
proof (induction names arbitrary: err st)
  case Nil
  then show ?case by simp
next
  case (Cons m names)
  obtain evs res where r: "init_repo env bd m err = (evs, res)"
    by (cases "init_repo env bd m err")
  obtain evs' res' where
    r': "init_repo (absent_at env (get_repo_path bd n)) bd m err = (evs', res')"
    by (cases "init_repo (absent_at env (get_repo_path bd n)) bd m err")
  from init_repo_absent[OF assms, of m err] r r' have same: "res' = res" by simp
  show ?case
  proof (cases res)
    case (Inl e)
    with r r' same show ?thesis by simp
  next
    case (Inr p)
    obtain a b where p: "p = (a, b)" by (cases p)
    from Cons.IH[of b "AList.update m a st"] r r' same Inr p show ?thesis
      by (auto split: prod.splits simp: snd_def)
  qed
qed

lemma init_repos_absent:
  assumes "invalid_empty env bd n"
  shows "snd (init_repos (absent_at env (get_repo_path bd n)) bd names)
       = snd (init_repos env bd names)"
  using init_repos_loop_absent[OF assms, of names False "[]"]
  by (auto simp: init_repos_def split: prod.splits sum.splits)

lemma clone_or_fetch_absent: "clone_or_fetch (absent_at env p) = clone_or_fetch env"
  by (intro ext) (simp add: clone_or_fetch_def absent_at_def split: option.splits sum.splits)

lemma switch_branch_absent: "switch_branch (absent_at env p) = switch_branch env"
  by (intro ext) (simp add: switch_branch_def absent_at_def split: option.splits sum.splits)

lemma pull_all_absent: "pull_all (absent_at env p) = pull_all env"
  by (intro ext) (simp add: pull_all_def absent_at_def)

lemma prepare_repo_absent:
  "prepare_repo (absent_at env p) bd st rs = prepare_repo env bd st rs"
  unfolding prepare_repo_def clone_or_fetch_absent switch_branch_absent pull_all_absent ..

lemma prepare_repos_absent:
  "prepare_repos (absent_at env p) bd st rss = prepare_repos env bd st rss"
  by (induction rss arbitrary: st) (simp_all add: prepare_repo_absent)

lemma init_repos_loop_warns:
  assumes "\<forall>m\<in>set names. \<not> listdir_fails env bd m" and "n \<in> set names"
    and "invalid_empty env bd n"
  shows "empty_msg bd n \<in> set (fst (init_repos_loop env bd names err st))
       \<and> map_of (fst (snd (init_repos_loop env bd names err st))) n = Some None"
  using assms
proof (induction names arbitrary: err st)
  case Nil
  then show ?case by simp
next
  case (Cons m names)
  from Cons.prems(1) have m: "\<not> listdir_fails env bd m" by simp
  from init_repo_ok[OF m, of err] obtain evs r where
    r: "init_repo env bd m err = (evs, Inr (r, err \<or> invalid_nonempty env bd m))" by blast
  from Cons.prems(1) have rest: "\<forall>m\<in>set names. \<not> listdir_fails env bd m" by simp
  show ?case
  proof (cases "n \<in> set names")
    case True
    from Cons.IH[OF rest True Cons.prems(3),
        of "err \<or> invalid_nonempty env bd m" "AList.update m r st"]
    show ?thesis
      using r by (auto split: prod.splits)
  next
    case False
    with Cons.prems(2) have mn: "m = n" by simp
    from Cons.prems(3) have here: "init_repo env bd n err
        = ([Log Debug (''Init repo '' @ quoted n @ '' in '' @ quoted (get_repo_path bd n)),
            empty_msg bd n], Inr (None, err))"
      by (auto simp: init_repo_def invalid_empty_def empty_msg_def Let_def
          split: repo_open.splits sum.splits)
    from init_repos_loop_ok[OF rest, of err "AList.update n None st"] False
    have "map_of (fst (snd (init_repos_loop env bd names err (AList.update n None st)))) n
            = Some None"
      by (auto simp: AList.update_conv')
    then show ?thesis
      using here mn by (auto split: prod.splits)

  qed
qed

lemma no_error_for_empty:
  assumes "\<forall>m\<in>set names. \<not> listdir_fails env bd m" and "invalid_empty env bd n"
  shows "invalid_msg bd n \<notin> set (fst (init_repos env bd names))"
proof
  assume a: "invalid_msg bd n \<in> set (fst (init_repos env bd names))"
  have "is_error_log (invalid_msg bd n)" by (simp add: invalid_msg_def)
  with a have "invalid_msg bd n \<in> set (filter is_error_log (fst (init_repos env bd names)))"
    by simp
  moreover from init_repos_loop_ok[OF assms(1), of False "[]"]
  have "filter is_error_log (fst (init_repos env bd names))
      = map (invalid_msg bd) (filter (invalid_nonempty env bd) names)"
    by (auto simp: init_repos_def)
  ultimately obtain m where "invalid_nonempty env bd m" "invalid_msg bd m = invalid_msg bd n"
    by auto
  then have "invalid_nonempty env bd m" "get_repo_path bd m = get_repo_path bd n"
    by (simp_all add: invalid_msg_def quoted_def)
  with assms(2) show False
    by (auto simp: invalid_nonempty_def invalid_empty_def split: repo_open.splits sum.splits)
qed

section \<open>Properties of repository preparation\<close>

lemma prepare_repos_append:
  "prepare_repos env bd st (pre @ post) =
     (case prepare_repos env bd st pre of
        (evs, st', Some e) \<Rightarrow> (evs, st', Some e)
      | (evs, st', None) \<Rightarrow>
          (case prepare_repos env bd st' post of (evs', res) \<Rightarrow> (evs @ evs', res)))"
  by (induction pre arbitrary: st) (auto split: prod.splits option.splits)

lemma ensure_head_missing:
  assumes "branch rs \<notin> set (heads r)"
    and "\<forall>rm\<in>set (remotes r). branch rs \<notin> set (refs rm)"
  shows "ensure_head rs r = ([branch_missing_msg rs], r, Some BuilderStop)"
proof -
  have "find (\<lambda>rm. branch rs \<in> set (refs rm)) (remotes r) = None"
    using assms(2) by (simp add: find_None_iff)
  with assms(1) show ?thesis
    by (simp add: ensure_head_def branch_missing_msg_def)
qed

lemma prepare_repo_missing:
  assumes "map_of st (name rs) = Some ro"
    and "clone_or_fetch env bd rs ro = (evs1, Some r1, None)"
    and "branch rs \<notin> set (heads r1)"
    and "\<forall>rm\<in>set (remotes r1). branch rs \<notin> set (refs rm)"
  shows "prepare_repo env bd st rs =
     (start_msg bd rs # evs1 @ [branch_missing_msg rs],
      AList.update (name rs) (Some r1) st, Some BuilderStop)"
  using assms(1,2) ensure_head_missing[OF assms(3,4)]
  by (simp add: prepare_repo_def start_msg_def)

lemma prepare_repo_clone_fails:
  assumes "map_of st (name rs) = Some None"
    and "clone_from env (uri rs) (get_repo_path bd (name rs)) (branch rs) = Inl e"
  shows "prepare_repo env bd st rs =
     ([start_msg bd rs, cloning_msg rs,
       GitClone (uri rs) (get_repo_path bd (name rs)) (branch rs)], st, Some e)"
  using assms
  by (simp add: prepare_repo_def clone_or_fetch_def start_msg_def cloning_msg_def)

lemma prepare_repo_store:
  "fst (snd (prepare_repo env bd st rs)) = st
   \<or> (\<exists>r'. fst (snd (prepare_repo env bd st rs)) = AList.update (name rs) (Some r') st)"
  by (auto simp: prepare_repo_def Let_def split: option.splits prod.splits)

lemma prepare_repo_other:
  "m \<noteq> name rs \<Longrightarrow> map_of (fst (snd (prepare_repo env bd st rs))) m = map_of st m"
  using prepare_repo_store[of env bd st rs] by (auto simp: AList.update_conv')

lemma prepare_repo_keeps:
  "map_of st m = Some (Some r) \<Longrightarrow>
     \<exists>r'. map_of (fst (snd (prepare_repo env bd st rs))) m = Some (Some r')"
  using prepare_repo_store[of env bd st rs] by (auto simp: AList.update_conv')

lemma prepare_repos_other:
  "\<forall>q\<in>set rss. name q \<noteq> m \<Longrightarrow>
     map_of (fst (snd (prepare_repos env bd st rss))) m = map_of st m"
proof (induction rss arbitrary: st)
  case Nil
  then show ?case by simp
next
  case (Cons rs rss)
  obtain evs st1 res where p: "prepare_repo env bd st rs = (evs, st1, res)"
    by (cases "prepare_repo env bd st rs")
  from Cons.prems have "m \<noteq> name rs" by auto
  from prepare_repo_other[OF this, of env bd st] p have s: "map_of st1 m = map_of st m" by simp
  from Cons.prems have "\<forall>q\<in>set rss. name q \<noteq> m" by simp
  from Cons.IH[OF this, of st1] s p show ?case
    by (cases res) (auto split: prod.splits)
qed

lemma prepare_repos_keeps:
  "map_of st m = Some (Some r) \<Longrightarrow>
     \<exists>r'. map_of (fst (snd (prepare_repos env bd st rss))) m = Some (Some r')"
proof (induction rss arbitrary: st r)
  case Nil
  then show ?case by simp
next
  case (Cons rs rss)
  obtain evs st1 res where p: "prepare_repo env bd st rs = (evs, st1, res)"
    by (cases "prepare_repo env bd st rs")
  from prepare_repo_keeps[OF Cons.prems, of env bd rs] p obtain r1 where
    s: "map_of st1 m = Some (Some r1)" by auto
  from Cons.IH[OF s] s p show ?case
    by (cases res) (auto split: prod.splits)
qed

lemma prepare_repo_clone_starts:
  assumes "map_of st (name rs) = Some None"
  shows "\<exists>evs. fst (prepare_repo env bd st rs)
       = start_msg bd rs # cloning_msg rs
           # GitClone (uri rs) (get_repo_path bd (name rs)) (branch rs) # evs"
  using assms
  by (auto simp: prepare_repo_def clone_or_fetch_def start_msg_def cloning_msg_def Let_def
      split: sum.splits prod.splits option.splits)

lemma prepare_repo_cloned:
  assumes "map_of st (name rs) = Some None"
    and "clone_from env (uri rs) (get_repo_path bd (name rs)) (branch rs) = Inr r"
  shows "\<exists>r'. map_of (fst (snd (prepare_repo env bd st rs))) (name rs) = Some (Some r')"
  using assms
  by (auto simp: prepare_repo_def clone_or_fetch_def Let_def AList.update_conv'
      split: prod.splits option.splits)

lemma prepare_repo_cloned_on_branch:
  assumes "map_of st (name rs) = Some None"
    and "clone_from env (uri rs) (get_repo_path bd (name rs)) (branch rs) = Inr r"
    and "branch rs \<in> set (heads r)"
    and "active_branch r = Some (branch rs)"
  shows "prepare_repo env bd st rs =
     (case pull_all env rs r of
        (evs, r', res) \<Rightarrow>
          (start_msg bd rs # cloning_msg rs
             # GitClone (uri rs) (get_repo_path bd (name rs)) (branch rs) # evs,
           AList.update (name rs) (Some r') st, res))"
  using assms
  by (simp add: prepare_repo_def clone_or_fetch_def ensure_head_def switch_branch_def
      start_msg_def cloning_msg_def split: prod.splits option.splits)


lemma prepare_pass_clones:
  assumes "map_of st (name rs) = Some None"
    and "\<forall>q\<in>set pre. name q \<noteq> name rs"
    and "prepare_repos env bd st pre = (evs0, st1, None)"
  shows "case prepare_repos env bd st (pre @ rs # rest) of
           (evs', st', res') \<Rightarrow>
             take (length evs0 + 3) evs'
               = evs0 @ [start_msg bd rs, cloning_msg rs,
                         GitClone (uri rs) (get_repo_path bd (name rs)) (branch rs)]
           \<and> (\<forall>r. clone_from env (uri rs) (get_repo_path bd (name rs)) (branch rs) = Inr r \<longrightarrow>
                  (\<exists>r'. map_of st' (name rs) = Some (Some r')))
           \<and> (\<forall>r. clone_from env (uri rs) (get_repo_path bd (name rs)) (branch rs) = Inr r
                  \<and> branch rs \<in> set (heads r) \<and> active_branch r = Some (branch rs)
                  \<and> \<not> fetch rs \<and> (\<forall>q\<in>set rest. name q \<noteq> name rs) \<longrightarrow>
                  map_of st' (name rs) = Some (Some r))
           \<and> (\<forall>e. clone_from env (uri rs) (get_repo_path bd (name rs)) (branch rs) = Inl e \<longrightarrow>
                  evs' = evs0 @ [start_msg bd rs, cloning_msg rs,
                                 GitClone (uri rs) (get_repo_path bd (name rs)) (branch rs)]
                  \<and> st' = st1 \<and> res' = Some e \<and> map_of st' (name rs) = Some None)"
proof -
  from prepare_repos_other[OF assms(2), of env bd st] assms(1,3)
  have s1: "map_of st1 (name rs) = Some None" by simp
  obtain evs2 st2 res2 where p2: "prepare_repo env bd st1 rs = (evs2, st2, res2)"
    by (cases "prepare_repo env bd st1 rs")
  obtain evs3 st3 res3 where p3: "prepare_repos env bd st2 rest = (evs3, st3, res3)"
    by (cases "prepare_repos env bd st2 rest")
  define evs' where "evs' = (if res2 = None then evs0 @ evs2 @ evs3 else evs0 @ evs2)"
  define st' where "st' = (if res2 = None then st3 else st2)"
  define res' where "res' = (if res2 = None then res3 else res2)"
  have whole: "prepare_repos env bd st (pre @ rs # rest) = (evs', st', res')"
    using assms(3) p2 p3 by (cases res2) (simp_all add: prepare_repos_append evs'_def st'_def res'_def)
  from prepare_repo_clone_starts[OF s1, of env bd] p2 obtain x where
    x: "evs2 = start_msg bd rs # cloning_msg rs
          # GitClone (uri rs) (get_repo_path bd (name rs)) (branch rs) # x" by auto
  have c1: "take (length evs0 + 3) evs'
      = evs0 @ [start_msg bd rs, cloning_msg rs,
                GitClone (uri rs) (get_repo_path bd (name rs)) (branch rs)]"
    by (simp add: evs'_def x)
  have c2: "\<exists>r'. map_of st' (name rs) = Some (Some r')"
    if "clone_from env (uri rs) (get_repo_path bd (name rs)) (branch rs) = Inr r" for r
  proof -
    from prepare_repo_cloned[OF s1 that] p2 obtain r2 where
      r2: "map_of st2 (name rs) = Some (Some r2)" by auto
    from prepare_repos_keeps[OF r2, of env bd rest] p3 obtain r3 where
      "map_of st3 (name rs) = Some (Some r3)" by auto
    with r2 show ?thesis by (auto simp: st'_def)
  qed
  have c3: "map_of st' (name rs) = Some (Some r)"
    if "clone_from env (uri rs) (get_repo_path bd (name rs)) (branch rs) = Inr r
        \<and> branch rs \<in> set (heads r) \<and> active_branch r = Some (branch rs)
        \<and> \<not> fetch rs \<and> (\<forall>q\<in>set rest. name q \<noteq> name rs)" for r
  proof -
    from that have "pull_all env rs r = ([], r, None)" by (simp add: pull_all_def)
    with prepare_repo_cloned_on_branch[OF s1, of env bd r] that p2
    have "st2 = AList.update (name rs) (Some r) st1" by simp
    then have r2: "map_of st2 (name rs) = Some (Some r)" by (simp add: AList.update_conv')
    from that have "\<forall>q\<in>set rest. name q \<noteq> name rs" by simp
    from prepare_repos_other[OF this, of env bd st2] p3 r2
    have "map_of st3 (name rs) = Some (Some r)" by simp
    with r2 show ?thesis by (simp add: st'_def)
  qed
  have c4: "evs' = evs0 @ [start_msg bd rs, cloning_msg rs,
                           GitClone (uri rs) (get_repo_path bd (name rs)) (branch rs)]
      \<and> st' = st1 \<and> res' = Some e \<and> map_of st' (name rs) = Some None"
    if "clone_from env (uri rs) (get_repo_path bd (name rs)) (branch rs) = Inl e" for e
    using prepare_repo_clone_fails[OF s1 that] p2 s1
    by (simp add: evs'_def st'_def res'_def)
  from c1 c2 c3 c4 show ?thesis
    unfolding whole prod.case by blast
qed

text \<open>
  Claim C3 as stated fails for a repository that is not cloned yet: the clone is asked
  for the required branch before any branch is looked up, and where no remote has the
  branch it is \<^verbatim>\<open>clone_from\<close> that raises. The run ends there with the error of the git
  library; no record of a missing branch is logged and no \<^verbatim>\<open>BuilderStop\<close> is raised.
\<close>

theorem missing_branch_clone_counterexample:
  "map_of ex_store ''luci'' = Some None
   \<and> prepare_repos ex_env_strict ''/build'' ex_store ex_remotes_fresh =
       ([start_msg ''/build'' (ex_remotes_fresh ! 0), cloning_msg (ex_remotes_fresh ! 0),
         GitClone ''git://host/luci'' ''/build/luci'' ''v9''],
        ex_store, Some GitCommandError)"
  by code_simp

text \<open>
  Claim C3, amended. Let the repositories before \<open>rs\<close> be prepared without an
  exception. Where the repository of \<open>rs\<close> is materialised, cloned before or by the
  clone of this pass, and the branch that \<open>rs\<close> requires is neither a local head nor a
  ref of any remote of it after the clone or fetch step, preparing \<open>rs\<close> logs the
  error and raises \<^verbatim>\<open>BuilderStop\<close>, and the loop over all repositories ends there with
  that exception: its trace and its store are those reached at \<open>rs\<close>, whatever
  repositories \<open>rest\<close> follow. Where the repository is not cloned yet and the clone
  fails, the loop ends at \<open>rs\<close> as well, with the error of the clone and the store
  unchanged.
\<close>

theorem missing_branch_stops_prepare:
  assumes "prepare_repos env build_dir st0 pre = (evs0, st, None)"
    and "map_of st (name rs) = Some ro"
  shows "(\<forall>evs1 r1.
            clone_or_fetch env build_dir rs ro = (evs1, Some r1, None)
            \<and> branch rs \<notin> set (heads r1)
            \<and> (\<forall>rm\<in>set (remotes r1). branch rs \<notin> set (refs rm)) \<longrightarrow>
            prepare_repo env build_dir st rs =
              (start_msg build_dir rs # evs1 @ [branch_missing_msg rs],
               AList.update (name rs) (Some r1) st, Some BuilderStop)
          \<and> prepare_repos env build_dir st0 (pre @ rs # rest) =
              (evs0 @ start_msg build_dir rs # evs1 @ [branch_missing_msg rs],
               AList.update (name rs) (Some r1) st, Some BuilderStop))
       \<and> (\<forall>e. ro = None
            \<and> clone_from env (uri rs) (get_repo_path build_dir (name rs)) (branch rs) = Inl e \<longrightarrow>
            prepare_repos env build_dir st0 (pre @ rs # rest) =
              (evs0 @ [start_msg build_dir rs, cloning_msg rs,
                       GitClone (uri rs) (get_repo_path build_dir (name rs)) (branch rs)],
               st, Some e))"
proof -
  have a: "prepare_repo env build_dir st rs =
              (start_msg build_dir rs # evs1 @ [branch_missing_msg rs],
               AList.update (name rs) (Some r1) st, Some BuilderStop)
          \<and> prepare_repos env build_dir st0 (pre @ rs # rest) =
              (evs0 @ start_msg build_dir rs # evs1 @ [branch_missing_msg rs],
               AList.update (name rs) (Some r1) st, Some BuilderStop)"
    if "clone_or_fetch env build_dir rs ro = (evs1, Some r1, None)
        \<and> branch rs \<notin> set (heads r1)
        \<and> (\<forall>rm\<in>set (remotes r1). branch rs \<notin> set (refs rm))" for evs1 r1
  proof -
    from that have c: "clone_or_fetch env build_dir rs ro = (evs1, Some r1, None)"
      and h: "branch rs \<notin> set (heads r1)"
      and r: "\<forall>rm\<in>set (remotes r1). branch rs \<notin> set (refs rm)" by simp_all
    from prepare_repo_missing[OF assms(2) c h r] assms(1) show ?thesis
      by (simp add: prepare_repos_append)
  qed
  have b: "prepare_repos env build_dir st0 (pre @ rs # rest) =
              (evs0 @ [start_msg build_dir rs, cloning_msg rs,
                       GitClone (uri rs) (get_repo_path build_dir (name rs)) (branch rs)],
               st, Some e)"
    if "ro = None
        \<and> clone_from env (uri rs) (get_repo_path build_dir (name rs)) (branch rs) = Inl e" for e
  proof -
    from that assms(2) have m: "map_of st (name rs) = Some None"
      and f: "clone_from env (uri rs) (get_repo_path build_dir (name rs)) (branch rs) = Inl e"
      by simp_all
    from prepare_repo_clone_fails[OF m f] assms(1) show ?thesis
      by (simp add: prepare_repos_append)
  qed
  from a b show ?thesis by blast
qed

lemma ex_prepare_two:
  "prepare_repos ex_env ''/build'' ex_store (take 2 ex_remotes)
     = (fst (prepare_repos ex_env ''/build'' ex_store (take 2 ex_remotes)), ex_store2, None)"
  by code_simp

lemma ex_fetch_lede:
  "clone_or_fetch ex_env ''/build'' (ex_remotes ! 2) (the (map_of ex_store2 ''lede''))
     = ([Log Info (''Fetching remote '' @ quoted ''lede''), GitFetch ''lede'' ''origin''],
        the (map_of ex_store2 ''lede''), None)"
  by code_simp

text \<open>
  The third of four repository specifications asks for a branch \<^verbatim>\<open>v9\<close> that nothing
  has, of a repository that is cloned: the run stops there with \<^verbatim>\<open>BuilderStop\<close>, and
  \<^verbatim>\<open>linux\<close>, the fourth, is still not cloned. Asked of a repository that is not
  cloned, the same branch makes the clone fail, and the run ends with its error.
\<close>

theorem missing_branch_stops_prepare_witness:
  "snd (snd (prepare_repos ex_env ''/build'' ex_store ex_remotes)) = Some BuilderStop
   \<and> map_of (fst (snd (prepare_repos ex_env ''/build'' ex_store ex_remotes))) ''linux''
       = Some None
   \<and> last (fst (prepare_repos ex_env ''/build'' ex_store ex_remotes))
       = branch_missing_msg (ex_remotes ! 2)
   \<and> snd (prepare_repos ex_env_strict ''/build'' ex_store ex_remotes_fresh)
       = (ex_store, Some GitCommandError)"
proof -
  have split: "ex_remotes = take 2 ex_remotes @ (ex_remotes ! 2) # [ex_remotes ! 3]"
    by (simp add: ex_remotes_def)
  have h2: "map_of ex_store2 (name (ex_remotes ! 2)) = Some (the (map_of ex_store2 ''lede''))"
    by (simp add: ex_store2_def ex_remotes_def)
  have h4: "branch (ex_remotes ! 2)
      \<notin> set (heads (the (the (map_of ex_store2 ''lede''))))"
    by (simp add: ex_store2_def ex_remotes_def ex_repo_def)
  have h5: "\<forall>rm\<in>set (remotes (the (the (map_of ex_store2 ''lede'')))).
      branch (ex_remotes ! 2) \<notin> set (refs rm)"
    by (simp add: ex_store2_def ex_remotes_def ex_repo_def)
  have sm: "the (map_of ex_store2 ''lede'') = Some (the (the (map_of ex_store2 ''lede'')))"
    by (simp add: ex_store2_def)
  have c: "clone_or_fetch ex_env ''/build'' (ex_remotes ! 2) (the (map_of ex_store2 ''lede''))
     = ([Log Info (''Fetching remote '' @ quoted ''lede''), GitFetch ''lede'' ''origin''],
        Some (the (the (map_of ex_store2 ''lede''))), None)"
    using ex_fetch_lede sm by (simp only:)
  from missing_branch_stops_prepare[OF ex_prepare_two h2, where rest = "[ex_remotes ! 3]"]
    c h4 h5
  have "prepare_repos ex_env ''/build'' ex_store
          (take 2 ex_remotes @ (ex_remotes ! 2) # [ex_remotes ! 3])
      = (fst (prepare_repos ex_env ''/build'' ex_store (take 2 ex_remotes))
           @ start_msg ''/build'' (ex_remotes ! 2)
           # [Log Info (''Fetching remote '' @ quoted ''lede''), GitFetch ''lede'' ''origin'']
           @ [branch_missing_msg (ex_remotes ! 2)],
         AList.update (name (ex_remotes ! 2)) (Some (the (the (map_of ex_store2 ''lede''))))
           ex_store2,
         Some BuilderStop)"
    by blast
  with split have first: "snd (snd (prepare_repos ex_env ''/build'' ex_store ex_remotes))
       = Some BuilderStop
   \<and> map_of (fst (snd (prepare_repos ex_env ''/build'' ex_store ex_remotes))) ''linux''
       = Some None
   \<and> last (fst (prepare_repos ex_env ''/build'' ex_store ex_remotes))
       = branch_missing_msg (ex_remotes ! 2)"
    by (simp add: ex_store2_def ex_remotes_def)
  have e0: "prepare_repos ex_env_strict ''/build'' ex_store [] = ([], ex_store, None)"
    by simp
  have m: "map_of ex_store (name (ex_remotes_fresh ! 0)) = Some None"
    by (simp add: ex_store_def ex_remotes_fresh_def)
  have f: "clone_from ex_env_strict (uri (ex_remotes_fresh ! 0))
      (get_repo_path ''/build'' (name (ex_remotes_fresh ! 0))) (branch (ex_remotes_fresh ! 0))
      = Inl GitCommandError"
    by (simp add: ex_env_strict_def ex_remotes_fresh_def)
  have l: "ex_remotes_fresh = [] @ (ex_remotes_fresh ! 0) # [ex_remotes_fresh ! 1]"
    by (simp add: ex_remotes_fresh_def)
  from missing_branch_stops_prepare[OF e0 m, where rest = "[ex_remotes_fresh ! 1]"] f
  have "snd (prepare_repos ex_env_strict ''/build'' ex_store
          ([] @ (ex_remotes_fresh ! 0) # [ex_remotes_fresh ! 1]))
      = (ex_store, Some GitCommandError)"
    by simp
  with l have second: "snd (prepare_repos ex_env_strict ''/build'' ex_store ex_remotes_fresh)
       = (ex_store, Some GitCommandError)"
    by simp
  from first second show ?thesis by blast
qed

lemma prepare_repo_clones:
  assumes "map_of st (name rs) = Some None"
  shows "take 3 (fst (prepare_repo env bd st rs))
       = [start_msg bd rs, cloning_msg rs,
          GitClone (uri rs) (get_repo_path bd (name rs)) (branch rs)]"
  using assms
  by (auto simp: prepare_repo_def clone_or_fetch_def start_msg_def cloning_msg_def Let_def
      split: sum.splits prod.splits option.splits)

text \<open>
  Claim C9. Where a configured path holds an empty directory, initialisation logs the
  warning for it and no error, stores \<open>None\<close> for the repository, and ends with the
  store and the result it has when nothing exists at that path; the preparation that
  follows runs as it does for an absent directory. A preparation pass that reaches the
  first specification \<open>rs\<close> of that repository calls \<^verbatim>\<open>clone_from\<close> on its URI, its
  path and its branch there, as the first operation on it. Where the clone succeeds
  the store holds a repository for the name at the end of the pass: the clone itself
  where it is on the required branch, nothing is fetched and no later specification
  names the repository. Where the clone fails the pass ends there with its error and
  the store still holds \<open>None\<close>.
\<close>

theorem empty_directory_is_cloned:
  assumes "n \<in> set names"
    and "invalid_empty env build_dir n"
    and "\<forall>m\<in>set names. \<not> listdir_fails env build_dir m"
  shows "case init_repos env build_dir names of
           (evs, st, res) \<Rightarrow>
             empty_msg build_dir n \<in> set evs
           \<and> invalid_msg build_dir n \<notin> set evs
           \<and> map_of st n = Some None
           \<and> snd (init_repos (absent_at env (get_repo_path build_dir n)) build_dir names)
               = (st, res)
           \<and> (\<forall>rss. prepare_repos (absent_at env (get_repo_path build_dir n)) build_dir st rss
                     = prepare_repos env build_dir st rss)
           \<and> (\<forall>rs st2. name rs = n \<and> map_of st2 n = Some None \<longrightarrow>
                 take 3 (fst (prepare_repo env build_dir st2 rs))
                   = [start_msg build_dir rs, cloning_msg rs,
                      GitClone (uri rs) (get_repo_path build_dir n) (branch rs)])
           \<and> (\<forall>pre rs rest evs0 st1.
                 name rs = n \<and> (\<forall>q\<in>set pre. name q \<noteq> n)
                 \<and> prepare_repos env build_dir st pre = (evs0, st1, None) \<longrightarrow>
                 (case prepare_repos env build_dir st (pre @ rs # rest) of
                    (evs', st', res') \<Rightarrow>
                      take (length evs0 + 3) evs'
                        = evs0 @ [start_msg build_dir rs, cloning_msg rs,
                                  GitClone (uri rs) (get_repo_path build_dir n) (branch rs)]
                    \<and> (\<forall>r. clone_from env (uri rs) (get_repo_path build_dir n) (branch rs)
                              = Inr r \<longrightarrow>
                           (\<exists>r'. map_of st' n = Some (Some r')))
                    \<and> (\<forall>r. clone_from env (uri rs) (get_repo_path build_dir n) (branch rs)
                              = Inr r
                           \<and> branch rs \<in> set (heads r) \<and> active_branch r = Some (branch rs)
                           \<and> \<not> fetch rs \<and> (\<forall>q\<in>set rest. name q \<noteq> n) \<longrightarrow>
                           map_of st' n = Some (Some r))
                    \<and> (\<forall>e. clone_from env (uri rs) (get_repo_path build_dir n) (branch rs)
                              = Inl e \<longrightarrow>
                           evs' = evs0 @ [start_msg build_dir rs, cloning_msg rs,
                                          GitClone (uri rs) (get_repo_path build_dir n)
                                            (branch rs)]
                           \<and> st' = st1 \<and> res' = Some e \<and> map_of st' n = Some None)))"
proof -
  obtain evs st res where i: "init_repos env build_dir names = (evs, st, res)"
    by (cases "init_repos env build_dir names")
  from init_repos_loop_warns[OF assms(3,1,2), of False "[]"] i
  have w: "empty_msg build_dir n \<in> set evs" "map_of st n = Some None"
    by (auto simp: init_repos_def split: prod.splits sum.splits)
  from no_error_for_empty[OF assms(3,2)] i
  have e: "invalid_msg build_dir n \<notin> set evs" by simp
  from init_repos_absent[OF assms(2), of names] i
  have a: "snd (init_repos (absent_at env (get_repo_path build_dir n)) build_dir names)
      = (st, res)" by simp
  have c: "\<forall>rs st2. name rs = n \<and> map_of st2 n = Some None \<longrightarrow>
      take 3 (fst (prepare_repo env build_dir st2 rs))
        = [start_msg build_dir rs, cloning_msg rs,
           GitClone (uri rs) (get_repo_path build_dir n) (branch rs)]"
    using prepare_repo_clones[of _ _ env build_dir] by auto
  have pass: "\<forall>pre rs rest evs0 st1.
      name rs = n \<and> (\<forall>q\<in>set pre. name q \<noteq> n)
      \<and> prepare_repos env build_dir st pre = (evs0, st1, None) \<longrightarrow>
      (case prepare_repos env build_dir st (pre @ rs # rest) of
         (evs', st', res') \<Rightarrow>
           take (length evs0 + 3) evs'
             = evs0 @ [start_msg build_dir rs, cloning_msg rs,
                       GitClone (uri rs) (get_repo_path build_dir n) (branch rs)]
         \<and> (\<forall>r. clone_from env (uri rs) (get_repo_path build_dir n) (branch rs)
                   = Inr r \<longrightarrow>
                (\<exists>r'. map_of st' n = Some (Some r')))
         \<and> (\<forall>r. clone_from env (uri rs) (get_repo_path build_dir n) (branch rs)
                   = Inr r
                \<and> branch rs \<in> set (heads r) \<and> active_branch r = Some (branch rs)
                \<and> \<not> fetch rs \<and> (\<forall>q\<in>set rest. name q \<noteq> n) \<longrightarrow>
                map_of st' n = Some (Some r))
         \<and> (\<forall>e. clone_from env (uri rs) (get_repo_path build_dir n) (branch rs)
                   = Inl e \<longrightarrow>
                evs' = evs0 @ [start_msg build_dir rs, cloning_msg rs,
                               GitClone (uri rs) (get_repo_path build_dir n)
                                 (branch rs)]
                \<and> st' = st1 \<and> res' = Some e \<and> map_of st' n = Some None))"
  proof (intro allI impI)
    fix pre :: "remote_spec list" and rs :: remote_spec and rest :: "remote_spec list"
      and evs0 :: "event list" and st1 :: store
    assume h: "name rs = n \<and> (\<forall>q\<in>set pre. name q \<noteq> n)
      \<and> prepare_repos env build_dir st pre = (evs0, st1, None)"
    then have n: "n = name rs" by simp
    from w(2) have h1: "map_of st (name rs) = Some None" unfolding n .
    from h have h2: "\<forall>q\<in>set pre. name q \<noteq> name rs" by simp
    from h have h3: "prepare_repos env build_dir st pre = (evs0, st1, None)" by simp
    from prepare_pass_clones[OF h1 h2 h3, of rest]
    show "case prepare_repos env build_dir st (pre @ rs # rest) of
         (evs', st', res') \<Rightarrow>
           take (length evs0 + 3) evs'
             = evs0 @ [start_msg build_dir rs, cloning_msg rs,
                       GitClone (uri rs) (get_repo_path build_dir n) (branch rs)]
         \<and> (\<forall>r. clone_from env (uri rs) (get_repo_path build_dir n) (branch rs)
                   = Inr r \<longrightarrow>
                (\<exists>r'. map_of st' n = Some (Some r')))
         \<and> (\<forall>r. clone_from env (uri rs) (get_repo_path build_dir n) (branch rs)
                   = Inr r
                \<and> branch rs \<in> set (heads r) \<and> active_branch r = Some (branch rs)
                \<and> \<not> fetch rs \<and> (\<forall>q\<in>set rest. name q \<noteq> n) \<longrightarrow>
                map_of st' n = Some (Some r))
         \<and> (\<forall>e. clone_from env (uri rs) (get_repo_path build_dir n) (branch rs)
                   = Inl e \<longrightarrow>
                evs' = evs0 @ [start_msg build_dir rs, cloning_msg rs,
                               GitClone (uri rs) (get_repo_path build_dir n)
                                 (branch rs)]
                \<and> st' = st1 \<and> res' = Some e \<and> map_of st' n = Some None)"
      unfolding n .
  qed
  have abs: "\<forall>rss. prepare_repos (absent_at env (get_repo_path build_dir n)) build_dir st rss
      = prepare_repos env build_dir st rss"
    by (simp add: prepare_repos_absent)
  from w e a abs c pass show ?thesis
    unfolding i prod.case by blast
qed

text \<open>
  \<^verbatim>\<open>/build/linux\<close> is an empty directory: a warning, no \<^verbatim>\<open>BuilderStop\<close> on its account
  (without the non-empty \<^verbatim>\<open>luci\<close> the initialisation succeeds), and a preparation
  pass over \<^verbatim>\<open>lede\<close> and \<^verbatim>\<open>linux\<close> clones the repository: the store holds the clone
  at the end.
\<close>

theorem empty_directory_is_cloned_witness:
  "''linux'' \<in> set [''lede'', ''linux'', ''cgminer'']
   \<and> invalid_empty ex_env ''/build'' ''linux''
   \<and> list_all (\<lambda>m. \<not> listdir_fails ex_env ''/build'' m) [''lede'', ''linux'', ''cgminer'']
   \<and> snd (snd (init_repos ex_env ''/build'' [''lede'', ''linux'', ''cgminer''])) = Inr ()
   \<and> empty_msg ''/build'' ''linux''
        \<in> set (fst (init_repos ex_env ''/build'' [''lede'', ''linux'', ''cgminer'']))
   \<and> map_of (fst (snd (init_repos ex_env ''/build'' [''lede'', ''linux'', ''cgminer''])))
        ''linux'' = Some None
   \<and> take 3 (fst (prepare_repo ex_env ''/build''
        (fst (snd (init_repos ex_env ''/build'' [''lede'', ''linux'', ''cgminer''])))
        (ex_remotes ! 3)))
        = [start_msg ''/build'' (ex_remotes ! 3), cloning_msg (ex_remotes ! 3),
           GitClone ''git://host/linux'' ''/build/linux'' ''master'']
   \<and> map_of (fst (snd (prepare_repos ex_env ''/build''
        (fst (snd (init_repos ex_env ''/build'' [''lede'', ''linux'', ''cgminer''])))
        [ex_remotes ! 0, ex_remotes ! 3]))) ''linux''
        = Some (Some (ex_repo\<lparr>working_dir := ''/build/linux'', heads := [''master''],
                        active_branch := Some ''master''\<rparr>))
   \<and> snd (snd (prepare_repos ex_env ''/build''
        (fst (snd (init_repos ex_env ''/build'' [''lede'', ''linux'', ''cgminer''])))
        [ex_remotes ! 0, ex_remotes ! 3])) = None"
proof -
  have h1: "''linux'' \<in> set [''lede'', ''linux'', ''cgminer'']" by simp
  have h2: "invalid_empty ex_env ''/build'' ''linux''"
    by (simp add: invalid_empty_def ex_env_def ex_paths)
  have h3: "\<forall>m\<in>set [''lede'', ''linux'', ''cgminer'']. \<not> listdir_fails ex_env ''/build'' m"
    by (simp add: listdir_fails_def ex_env_def ex_paths)
  have r: "snd (snd (init_repos ex_env ''/build'' [''lede'', ''linux'', ''cgminer''])) = Inr ()"
    by code_simp
  have n: "name (ex_remotes ! 3) = ''linux''" "uri (ex_remotes ! 3) = ''git://host/linux''"
    "branch (ex_remotes ! 3) = ''master''"
    by (simp_all add: ex_remotes_def)
  have p: "map_of (fst (snd (prepare_repos ex_env ''/build''
        (fst (snd (init_repos ex_env ''/build'' [''lede'', ''linux'', ''cgminer''])))
        [ex_remotes ! 0, ex_remotes ! 3]))) ''linux''
        = Some (Some (ex_repo\<lparr>working_dir := ''/build/linux'', heads := [''master''],
                        active_branch := Some ''master''\<rparr>))"
    by code_simp
  have q: "snd (snd (prepare_repos ex_env ''/build''
        (fst (snd (init_repos ex_env ''/build'' [''lede'', ''linux'', ''cgminer''])))
        [ex_remotes ! 0, ex_remotes ! 3])) = None"
    by code_simp
  have first: "''linux'' \<in> set [''lede'', ''linux'', ''cgminer'']
   \<and> invalid_empty ex_env ''/build'' ''linux''
   \<and> list_all (\<lambda>m. \<not> listdir_fails ex_env ''/build'' m) [''lede'', ''linux'', ''cgminer'']
   \<and> snd (snd (init_repos ex_env ''/build'' [''lede'', ''linux'', ''cgminer''])) = Inr ()
   \<and> empty_msg ''/build'' ''linux''
        \<in> set (fst (init_repos ex_env ''/build'' [''lede'', ''linux'', ''cgminer'']))
   \<and> map_of (fst (snd (init_repos ex_env ''/build'' [''lede'', ''linux'', ''cgminer''])))
        ''linux'' = Some None
   \<and> take 3 (fst (prepare_repo ex_env ''/build''
        (fst (snd (init_repos ex_env ''/build'' [''lede'', ''linux'', ''cgminer''])))
        (ex_remotes ! 3)))
        = [start_msg ''/build'' (ex_remotes ! 3), cloning_msg (ex_remotes ! 3),
           GitClone ''git://host/linux'' ''/build/linux'' ''master'']"
    using empty_directory_is_cloned[OF h1 h2 h3] h2 h3 r n
    by (auto simp: list_all_iff ex_paths split: prod.splits)
  from first p q show ?thesis by blast
qed

section \<open>Properties of the status operation\<close>

lemma status_append:
  "status (pre @ post) =
     (case status pre of
        (evs, Some e) \<Rightarrow> (evs, Some e)
      | (evs, None) \<Rightarrow> (case status post of (evs', res) \<Rightarrow> (evs @ evs', res)))"
  by (induction pre) (auto split: prod.splits option.splits)

lemma print_diffs_ok:
  "list_all (\<lambda>d. change_type d \<noteq> []) ds \<Longrightarrow> snd (print_diffs colour ds) = None"
  by (induction ds) (auto simp: get_diff_path_def split: list.splits prod.splits)

lemma diff_section_ok:
  "list_all (\<lambda>d. change_type d \<noteq> []) ds \<Longrightarrow> snd (diff_section title colour ds) = None"
  using print_diffs_ok[of ds colour]
  by (auto simp: diff_section_def split: prod.splits option.splits)

lemma status_repo_ok: "reportable ro \<Longrightarrow> snd (status_repo n ro) = None"
proof -
  assume a: "reportable ro"
  then obtain r b where r: "ro = Some r" "active_branch r = Some b"
    "list_all (\<lambda>d. change_type d \<noteq> []) (indexed_files r)"
    "list_all (\<lambda>d. change_type d \<noteq> []) (staged_files r)"
    by (auto simp: reportable_def split: option.splits)
  from diff_section_ok[OF r(3), of "''Changes to be committed:''" "''green''"]
    diff_section_ok[OF r(4), of "''Changes not staged for commit:''" "''red''"]
  show ?thesis
    using r(1,2) by (auto simp: status_repo_def Let_def split: prod.splits option.splits)
qed

lemma status_ok: "list_all (\<lambda>(n, ro). reportable ro) st \<Longrightarrow> snd (status st) = None"
proof (induction st)
  case Nil
  then show ?case by simp
next
  case (Cons a st)
  obtain n ro where a: "a = (n, ro)" by (cases a)
  with Cons.prems have "reportable ro" by simp
  from status_repo_ok[OF this, of n] Cons a show ?case
    by (auto split: prod.splits option.splits)
qed

lemma status_fails_at_None:
  "status (pre @ (n, None) # post) =
     (case status pre of
        (evs, Some e) \<Rightarrow> (evs, Some e)
      | (evs, None) \<Rightarrow> (evs, Some AttributeError))"
  by (simp add: status_append status_repo_def split: prod.splits option.splits)

text \<open>
  Claim C10. A store entry \<open>None\<close> makes \<^verbatim>\<open>status\<close> fail: the loop reports the entries
  before it, raises at the entry itself (\<^verbatim>\<open>AttributeError\<close> where the entries before
  could all be reported) and prints nothing for it nor for any entry after it; so
  \<^verbatim>\<open>status\<close> raises whenever some configured repository is not cloned.
\<close>

theorem status_needs_materialized:
  "status (pre @ (n, None) # post) =
     (case status pre of
        (evs, Some e) \<Rightarrow> (evs, Some e)
      | (evs, None) \<Rightarrow> (evs, Some AttributeError))
   \<and> (list_all (\<lambda>(m, ro). reportable ro) pre \<longrightarrow>
        status (pre @ (n, None) # post) = (fst (status pre), Some AttributeError))
   \<and> ((m, None) \<in> set st \<longrightarrow> snd (status st) \<noteq> None)"
proof -
  have a: "status (pre @ (n, None) # post) =
     (case status pre of
        (evs, Some e) \<Rightarrow> (evs, Some e)
      | (evs, None) \<Rightarrow> (evs, Some AttributeError))"
    by (rule status_fails_at_None)
  have b: "list_all (\<lambda>(m, ro). reportable ro) pre \<longrightarrow>
      status (pre @ (n, None) # post) = (fst (status pre), Some AttributeError)"
    using status_ok[of pre] a by (auto split: prod.splits option.splits)
  have c: "(m, None) \<in> set st \<longrightarrow> snd (status st) \<noteq> None"
  proof
    assume "(m, None) \<in> set st"
    then obtain p q where "st = p @ (m, None) # q" by (auto simp: in_set_conv_decomp)
    then show "snd (status st) \<noteq> None"
      by (auto simp: status_fails_at_None split: prod.splits option.splits)
  qed
  from a b c show ?thesis by blast
qed

text \<open>
  After the initialisation of the four example repositories only \<^verbatim>\<open>lede\<close> is cloned:
  \<^verbatim>\<open>status\<close> reports \<^verbatim>\<open>lede\<close> and raises at \<^verbatim>\<open>luci\<close>.
\<close>

theorem status_needs_materialized_witness:
  "list_all (\<lambda>(m, ro). reportable ro) [(''lede'', Some ex_repo)]
   \<and> (''luci'', None) \<in> set ex_store
   \<and> status ex_store =
       ([Log Info (''Status for '' @ quoted ''lede'' @ '' (master)''),
         Print [Plain ''nothing to commit, working tree clean''], Print []],
        Some AttributeError)"
proof -
  have h: "list_all (\<lambda>(m, ro). reportable ro) [(''lede'', Some ex_repo)]"
    by (simp add: reportable_def ex_repo_def)
  have s: "ex_store = [(''lede'', Some ex_repo)] @ (''luci'', None)
      # [(''linux'', None), (''cgminer'', None)]"
    by (simp add: ex_store_def)
  have f: "fst (status [(''lede'', Some ex_repo)]) =
       [Log Info (''Status for '' @ quoted ''lede'' @ '' (master)''),
         Print [Plain ''nothing to commit, working tree clean''], Print []]"
    by (simp add: status_repo_def diff_section_def untracked_section_def ex_repo_def)
  have m: "(''luci'', None) \<in> set ex_store"
    by (simp add: ex_store_def)
  from status_needs_materialized[of "[(''lede'', Some ex_repo)]" "''luci''"
      "[(''linux'', None), (''cgminer'', None)]" "''luci''" ex_store] h
  have "status ([(''lede'', Some ex_repo)] @ (''luci'', None)
      # [(''linux'', None), (''cgminer'', None)])
      = (fst (status [(''lede'', Some ex_repo)]), Some AttributeError)"
    by blast
  with s f have "status ex_store =
       ([Log Info (''Status for '' @ quoted ''lede'' @ '' (master)''),
         Print [Plain ''nothing to commit, working tree clean''], Print []],
        Some AttributeError)"
    by (simp only:)
  with h m show ?thesis by blast
qed

section \<open>Properties of the variant check and of the deploy target\<close>

text \<open>
  Claim C4 as stated fails: where the file named by \<^verbatim>\<open>build.config\<close> selects glibc and
  the \<^verbatim>\<open>.config\<close> of the build tree selects musl, \<^verbatim>\<open>_use_glibc\<close> answers \<^verbatim>\<open>True\<close>,
  and the check on the destination path would answer \<^verbatim>\<open>False\<close>.
\<close>

theorem use_glibc_destination_counterexample:
  "use_glibc ex_builder ex_sys ex_world = Inr True
   \<and> use_glibc_at_destination ex_builder ex_sys ex_world = Inr False"
  by code_simp

text \<open>
  Claim C4, amended. The variant check opens the first path of \<^verbatim>\<open>_get_config_paths\<close>,
  the absolute path of the file named by \<^verbatim>\<open>build.config\<close>, and answers whether one of
  its lines starts with the glibc setting; what is at the destination path, the
  \<^verbatim>\<open>.config\<close> inside the build tree, has no part in the answer.
\<close>

theorem use_glibc_reads_source:
  assumes "get_config_paths b env = Inr (source_path, destination_path)"
  shows "source_path = os_path_abspath env (build_config (builder_config b))
       \<and> use_glibc b env w =
           (case files w source_path of
              None \<Rightarrow> Inl (FileNotFoundError source_path)
            | Some f \<Rightarrow> Inr (\<exists>line\<in>set (file_lines (content f)). prefix glibc_line line))
       \<and> (destination_path \<noteq> source_path \<longrightarrow>
            use_glibc b env (w\<lparr>files := (files w)(destination_path := x)\<rparr>) = use_glibc b env w)"
  using assms
  by (auto simp: use_glibc_def get_config_paths_def startswith_def list_ex_iff
      split: option.splits)

theorem use_glibc_reads_source_witness:
  "get_config_paths ex_builder ex_sys
     = Inr (''/src/configs/default.config'', ''/build/lede/.config'')
   \<and> use_glibc ex_builder ex_sys
       (ex_world\<lparr>files := (files ex_world)(''/build/lede/.config'' := None)\<rparr>) = Inr True"
proof -
  have p: "get_config_paths ex_builder ex_sys
     = Inr (''/src/configs/default.config'', ''/build/lede/.config'')"
    by code_simp
  have g: "use_glibc ex_builder ex_sys ex_world = Inr True"
    by code_simp
  from use_glibc_reads_source[OF p, of ex_world None] p g show ?thesis
    by simp
qed

lemma deploy_unsupported:
  assumes "deploy_target (builder_config b) \<noteq> ''sd''"
  shows "filter is_remote (fst (deploy b env w dev d)) = []"
    and "fst (snd (deploy b env w dev d)) = d"
    and "snd (snd (deploy b env w dev d)) \<noteq> Some BuilderStop"
  using assms
  by (auto simp: deploy_def use_glibc_def get_config_paths_def
      split: sum.splits option.splits prod.splits)

text \<open>
  Claim C1, what the code does. With a deploy target other than \<^verbatim>\<open>sd\<close>, \<^verbatim>\<open>deploy\<close>
  performs no remote operation and leaves the device as it is, but it never raises
  \<^verbatim>\<open>BuilderStop\<close>: where the variant check succeeds it logs the error and returns
  normally.
\<close>

theorem deploy_unsupported_target_returns:
  assumes "deploy_target (builder_config b) \<noteq> ''sd''"
  shows "filter is_remote (fst (deploy b env w dev d)) = []
       \<and> fst (snd (deploy b env w dev d)) = d
       \<and> snd (snd (deploy b env w dev d)) \<noteq> Some BuilderStop
       \<and> (\<forall>glibc. use_glibc b env w = Inr glibc \<longrightarrow>
            deploy b env w dev d =
              ([Log Info ''Start deploying Miner firmware...'',
                Log Error (''Unsupported target '' @ quoted (deploy_target (builder_config b))
                  @ '' for firmware image'')],
               d, None))"
proof -
  have "\<forall>glibc. use_glibc b env w = Inr glibc \<longrightarrow>
            deploy b env w dev d =
              ([Log Info ''Start deploying Miner firmware...'',
                Log Error (''Unsupported target '' @ quoted (deploy_target (builder_config b))
                  @ '' for firmware image'')],
               d, None)"
    using assms
    by (auto simp: deploy_def use_glibc_def get_config_paths_def
        split: sum.splits option.splits prod.splits)
  with deploy_unsupported[OF assms, of env w dev d] show ?thesis by blast
qed

theorem deploy_unsupported_target_returns_witness:
  "deploy_target (builder_config ex_nand) = ''nand''
   \<and> deploy ex_nand ex_sys ex_world ex_device 0 =
       ([Log Info ''Start deploying Miner firmware...'',
         Log Error (''Unsupported target '' @ quoted ''nand'' @ '' for firmware image'')],
        0, None)"
proof -
  have t: "deploy_target (builder_config ex_nand) = ''nand''"
    by (simp add: ex_nand_def ex_config_def)
  then have h: "deploy_target (builder_config ex_nand) \<noteq> ''sd''" by simp
  have g: "use_glibc ex_nand ex_sys ex_world = Inr True" by code_simp
  from deploy_unsupported_target_returns[OF h, of ex_sys ex_world ex_device 0] g t
  show ?thesis by auto
qed

section \<open>Properties of the toolchain environment\<close>

lemma split_on_nonempty: "split_on sep s \<noteq> []"
  by (induction s) (auto split: list.splits)

lemma split_on_hd_prefix: "prefix (hd (split_on sep s)) s"
  by (induction s) (auto split: list.splits)

lemma str_in_prefix: "prefix sub s \<Longrightarrow> str_in sub s"
  by (cases s) auto

lemma split_on_str_in: "x \<in> set (split_on sep s) \<Longrightarrow> str_in x s"
proof (induction s arbitrary: x)
  case Nil
  then show ?case by simp
next
  case (Cons c cs)
  show ?case
  proof (cases "c = sep")
    case True
    with Cons show ?thesis by auto
  next
    case False
    obtain l ls where l: "split_on sep cs = l # ls"
      using split_on_nonempty[of sep cs] by (cases "split_on sep cs") auto
    with False Cons.prems have "x = c # l \<or> x \<in> set ls" by simp
    then show ?thesis
    proof
      assume "x = c # l"
      moreover from split_on_hd_prefix[of sep cs] l have "prefix l cs" by simp
      ultimately show ?thesis by simp
    next
      assume "x \<in> set ls"
      with l Cons.IH[of x] show ?thesis by simp
    qed
  qed
qed

lemma toolchain_found:
  assumes "use_glibc b env w = Inr glibc"
    and "builder_working_dir b = Some wd"
    and "toolchain_dirs wd glibc = (target_dir, toolchain_dir)"
    and "os_path_exists w target_dir"
    and "os_path_exists w toolchain_dir"
  shows "toolchain b env w =
     (toolchain_start # toolchain_output b target_dir toolchain_dir
        (case environ w ''PATH'' of None \<Rightarrow> [] | Some p \<Rightarrow> p), None)"
  using assms by (simp add: toolchain_def)

lemma stdout_of_output:
  "stdout_of (toolchain_start # toolchain_output b target_dir toolchain_dir p) =
     [''TARGET='' @ [dq] @ target_dir @ [dq] @ '';'' @ [nl],
      ''TOOLCHAIN='' @ [dq] @ toolchain_dir @ [dq] @ '';'' @ [nl],
      ''export STAGING_DIR='' @ [dq] @ ''${TARGET}'' @ [dq] @ '';'' @ [nl]]
     @ (if \<not> str_in (toolchain_dir @ ''/bin'') p then [export_path_line] else [])"
  by (simp add: toolchain_output_def toolchain_start_def)

lemma use_glibc_with_path: "use_glibc b env (with_path w p) = use_glibc b env w"
  by (simp add: use_glibc_def with_path_def split: sum.splits prod.splits)

lemma exists_with_path: "os_path_exists (with_path w p) = os_path_exists w"
  by (intro ext) (simp add: os_path_exists_def with_path_def)

text \<open>
  Claim C5, amended. With both directories found, the line that exports \<^verbatim>\<open>PATH\<close> is
  written exactly when the text of the toolchain's \<^verbatim>\<open>bin\<close> directory occurs nowhere in
  the value of \<^verbatim>\<open>PATH\<close>; so it is left out whenever that directory is one of the
  components of \<^verbatim>\<open>PATH\<close>. Of two runs that differ only in \<^verbatim>\<open>PATH\<close>, one whose value
  contains the text and one whose value does not, the second writes the standard output
  of the first followed by that one line.
\<close>

theorem toolchain_path_line:
  assumes "use_glibc b env w = Inr glibc"
    and "builder_working_dir b = Some wd"
    and "toolchain_dirs wd glibc = (target_dir, toolchain_dir)"
    and "os_path_exists w target_dir"
    and "os_path_exists w toolchain_dir"
  shows "(export_path_line \<in> set (stdout_of (fst (toolchain b env (with_path w p))))
            \<longleftrightarrow> \<not> str_in (toolchain_dir @ ''/bin'') p)
       \<and> (path_component (toolchain_dir @ ''/bin'') p \<longrightarrow>
            export_path_line \<notin> set (stdout_of (fst (toolchain b env (with_path w p)))))
       \<and> (str_in (toolchain_dir @ ''/bin'') p \<and> \<not> str_in (toolchain_dir @ ''/bin'') p' \<longrightarrow>
            stdout_of (fst (toolchain b env (with_path w p')))
              = stdout_of (fst (toolchain b env (with_path w p))) @ [export_path_line])"
proof -
  have t: "toolchain b env (with_path w q) =
     (toolchain_start # toolchain_output b target_dir toolchain_dir q, None)" for q
    using toolchain_found[of b env "with_path w q" glibc wd target_dir toolchain_dir] assms
    by (simp add: use_glibc_with_path exists_with_path) (simp add: with_path_def)
  have a: "export_path_line \<in> set (stdout_of (fst (toolchain b env (with_path w p))))
            \<longleftrightarrow> \<not> str_in (toolchain_dir @ ''/bin'') p"
    by (simp add: t stdout_of_output) (simp add: export_path_line_def)
  have b: "path_component (toolchain_dir @ ''/bin'') p \<longrightarrow>
            export_path_line \<notin> set (stdout_of (fst (toolchain b env (with_path w p))))"
    using a split_on_str_in[of "toolchain_dir @ ''/bin''" "CHR '':''" p]
    by (auto simp: path_component_def)
  have c: "str_in (toolchain_dir @ ''/bin'') p \<and> \<not> str_in (toolchain_dir @ ''/bin'') p' \<longrightarrow>
            stdout_of (fst (toolchain b env (with_path w p')))
              = stdout_of (fst (toolchain b env (with_path w p))) @ [export_path_line]"
    by (simp add: t stdout_of_output)
  from a b c show ?thesis by blast
qed

lemma ex_tc: "use_glibc ex_builder ex_sys ex_world = Inr True"
  "builder_working_dir ex_builder = Some ''/build/lede''"
  "toolchain_dirs ''/build/lede'' True =
     (''/build/lede/staging_dir/target-arm_cortex-a9+neon_glibc-2.24_eabi'',
      ''/build/lede/staging_dir/toolchain-arm_cortex-a9+neon_gcc-5.4.0_glibc-2.24_eabi'')"
  "os_path_exists ex_world ''/build/lede/staging_dir/target-arm_cortex-a9+neon_glibc-2.24_eabi''"
  "os_path_exists ex_world ''/build/lede/staging_dir/toolchain-arm_cortex-a9+neon_gcc-5.4.0_glibc-2.24_eabi''"
  by code_simp+

text \<open>
  Claim C5 as stated fails: with \<^verbatim>\<open>.../bin-old\<close> in \<^verbatim>\<open>PATH\<close> the toolchain's \<^verbatim>\<open>bin\<close>
  directory is not a component of \<^verbatim>\<open>PATH\<close>, and the line is left out all the same;
  the output equals that of the run whose \<^verbatim>\<open>PATH\<close> has the directory.
\<close>

theorem toolchain_path_component_counterexample:
  "\<not> path_component ex_bin ex_path_old
   \<and> export_path_line \<notin> set (stdout_of (fst (toolchain ex_builder ex_sys (with_path ex_world ex_path_old))))
   \<and> path_component ex_bin ex_path_set
   \<and> stdout_of (fst (toolchain ex_builder ex_sys (with_path ex_world ex_path_old)))
       = stdout_of (fst (toolchain ex_builder ex_sys (with_path ex_world ex_path_set)))"
  by code_simp


theorem toolchain_path_line_witness:
  "path_component ex_bin ex_path_set
   \<and> export_path_line
       \<notin> set (stdout_of (fst (toolchain ex_builder ex_sys (with_path ex_world ex_path_set))))
   \<and> stdout_of (fst (toolchain ex_builder ex_sys (with_path ex_world ''/usr/bin'')))
       = stdout_of (fst (toolchain ex_builder ex_sys (with_path ex_world ex_path_set)))
           @ [export_path_line]"
proof -
  have c: "path_component ex_bin ex_path_set" by code_simp
  have s: "str_in ex_bin ex_path_set" "\<not> str_in ex_bin ''/usr/bin''" by code_simp+
  have e: "''/build/lede/staging_dir/toolchain-arm_cortex-a9+neon_gcc-5.4.0_glibc-2.24_eabi''
      @ ''/bin'' = ex_bin" by (simp add: ex_bin_def)
  from toolchain_path_line[OF ex_tc, of ex_path_set "''/usr/bin''"] c s
  show ?thesis unfolding e by blast
qed

section \<open>Properties of the feed manifest and of the interactive configuration\<close>

lemma run_events: "\<forall>e\<in>set (fst (run b env args w)). \<not> writes_to p e"
  by (simp add: run_def split: prod.splits)

lemma run_keeps:
  assumes "process_keeps env p"
  shows "files (fst (snd (run b env args w))) p = files w p"
proof -
  from assms have "files (fst (subprocess_run env (builder_working_dir b) args w)) p = files w p"
    unfolding process_keeps_def by blast
  then show ?thesis
    by (simp add: run_def split: prod.splits)
qed

lemma feeds_step_no_write:
  "\<forall>e\<in>set (fst (feeds_step b env u msg action w)). \<not> writes_to p e"
  using run_events[of b env "[path_join ''scripts'' [''feeds''], action, ''-a'']" w p]
  by (auto simp: feeds_step_def split: prod.splits)

lemma feeds_step_keeps:
  assumes "process_keeps env p"
  shows "files (fst (snd (feeds_step b env u msg action w))) p = files w p"
  using run_keeps[OF assms, of b "[path_join ''scripts'' [''feeds''], action, ''-a'']" w]
  by (auto simp: feeds_step_def split: prod.splits)

lemma feeds_steps_no_write:
  "\<forall>e\<in>set (fst (feeds_steps b env u i w)). \<not> writes_to p e"
proof -
  obtain evs1 w1 r1 where s1: "feeds_step b env u ''Updating feeds'' ''update'' w = (evs1, w1, r1)"
    by (cases "feeds_step b env u ''Updating feeds'' ''update'' w")
  obtain evs2 w2 r2 where
    s2: "feeds_step b env i ''Installing feeds'' ''install'' w1 = (evs2, w2, r2)"
    by (cases "feeds_step b env i ''Installing feeds'' ''install'' w1")
  from feeds_step_no_write[of b env u "''Updating feeds''" "''update''" w p] s1
  have a: "\<forall>e\<in>set evs1. \<not> writes_to p e" by simp
  from feeds_step_no_write[of b env i "''Installing feeds''" "''install''" w1 p] s2
  have b: "\<forall>e\<in>set evs2. \<not> writes_to p e" by simp
  from s1 s2 a b show ?thesis
    by (cases r1) (auto simp: feeds_steps_def)
qed

lemma feeds_steps_keeps:
  assumes "process_keeps env p"
  shows "files (fst (snd (feeds_steps b env u i w))) p = files w p"
proof -
  obtain evs1 w1 r1 where s1: "feeds_step b env u ''Updating feeds'' ''update'' w = (evs1, w1, r1)"
    by (cases "feeds_step b env u ''Updating feeds'' ''update'' w")
  obtain evs2 w2 r2 where
    s2: "feeds_step b env i ''Installing feeds'' ''install'' w1 = (evs2, w2, r2)"
    by (cases "feeds_step b env i ''Installing feeds'' ''install'' w1")
  from feeds_step_keeps[OF assms, of b u "''Updating feeds''" "''update''" w] s1
  have a: "files w1 p = files w p" by simp
  from feeds_step_keeps[OF assms, of b i "''Installing feeds''" "''install''" w1] s2
  have b: "files w2 p = files w1 p" by simp
  from s1 s2 a b show ?thesis
    by (cases r1) (auto simp: feeds_steps_def)
qed

lemma feeds_steps_idle: "feeds_steps b env False False w = ([], w, None)"
  by (simp add: feeds_steps_def feeds_step_def)

text \<open>
  Claim C7. Where the destination manifest exists and creation is not forced, a run of
  the feed preparation neither truncates nor writes the manifest; its content after the
  run is its content before, given that the external feed commands leave the file alone;
  and without a forced update or install the run changes nothing at all.
\<close>

theorem feeds_manifest_kept:
  assumes "builder_working_dir b = Some wd"
    and "os_path_exists w (path_join wd [FEEDS_CONF_DST])"
    and "feeds_create_always (builder_config b) \<noteq> ''yes''"
  shows "case prepare_feeds b env w of
           (evs, w', res) \<Rightarrow>
             (\<forall>e\<in>set evs. \<not> writes_to (path_join wd [FEEDS_CONF_DST]) e)
           \<and> (process_keeps env (path_join wd [FEEDS_CONF_DST]) \<longrightarrow>
                files w' (path_join wd [FEEDS_CONF_DST]) = files w (path_join wd [FEEDS_CONF_DST]))
           \<and> (feeds_update_always (builder_config b) \<noteq> ''yes''
                \<and> feeds_install_always (builder_config b) \<noteq> ''yes'' \<longrightarrow> w' = w)"
proof (cases "repo_working_dir b LUCI")
  case (Inl e)
  then show ?thesis by (simp add: prepare_feeds_def)
next
  case (Inr luci_dir)
  let ?u = "feeds_update_always (builder_config b) = ''yes''"
  let ?i = "feeds_install_always (builder_config b) = ''yes''"
  let ?p = "path_join wd [FEEDS_CONF_DST]"
  obtain evs w' res where s: "feeds_steps b env ?u ?i w = (evs, w', res)"
    by (cases "feeds_steps b env ?u ?i w")
  from Inr assms s have p: "prepare_feeds b env w = (Log Info ''Preparing feeds...'' # evs, w', res)"
    by (simp add: prepare_feeds_def Let_def)
  from feeds_steps_no_write[of b env ?u ?i w ?p] s
  have a: "\<forall>e\<in>set evs. \<not> writes_to ?p e" by simp
  from feeds_steps_keeps[of env ?p b ?u ?i w] s
  have k: "process_keeps env ?p \<longrightarrow> files w' ?p = files w ?p" by simp
  from feeds_steps_idle[of b env w] s
  have i: "\<not> ?u \<and> \<not> ?i \<longrightarrow> w' = w" by auto
  from p a k i show ?thesis by simp
qed

text \<open>
  A first run creates the manifest from the template; the second run, on the world the
  first one left, runs the forced install pass and does not touch the manifest.
\<close>

theorem feeds_manifest_kept_witness:
  "os_path_exists ex_world_fed ''/build/lede/feeds.conf''
   \<and> map_option content (files ex_world_fed ''/build/lede/feeds.conf'')
       = Some (''src-git packages https://host/packages.git'' @ [nl]
               @ ''src-link luci /build/luci'' @ [nl])
   \<and> (case prepare_feeds ex_builder ex_sys ex_world_fed of
        (evs, w', res) \<Rightarrow>
          list_all (\<lambda>e. \<not> writes_to ''/build/lede/feeds.conf'' e) evs
        \<and> files w' ''/build/lede/feeds.conf'' = files ex_world_fed ''/build/lede/feeds.conf'')"
proof -
  have wd: "builder_working_dir ex_builder = Some ''/build/lede''"
    by (simp add: ex_builder_def)
  have p: "path_join ''/build/lede'' [FEEDS_CONF_DST] = ''/build/lede/feeds.conf''"
    by code_simp
  have e: "os_path_exists ex_world_fed ''/build/lede/feeds.conf''"
    by code_simp
  have c: "map_option content (files ex_world_fed ''/build/lede/feeds.conf'')
       = Some (''src-git packages https://host/packages.git'' @ [nl]
               @ ''src-link luci /build/luci'' @ [nl])"
    by code_simp
  have f: "feeds_create_always (builder_config ex_builder) \<noteq> ''yes''"
    by (simp add: ex_builder_def ex_config_def)
  have k: "process_keeps ex_sys ''/build/lede/feeds.conf''"
    by (simp add: process_keeps_def ex_sys_def)
  from feeds_manifest_kept[OF wd, of ex_world_fed ex_sys] e f k c show ?thesis
    unfolding p by (auto simp: list_all_iff split: prod.splits)
qed

lemma file_lines_line:
  "nl \<notin> set l \<Longrightarrow> file_lines (l @ nl # rest) = (l @ [nl]) # file_lines rest"
  by (induction l) auto

lemma file_lines_concat:
  "\<forall>l\<in>set ls. nl \<notin> set l \<Longrightarrow>
     file_lines (concat (map (\<lambda>l. l @ [nl]) ls)) = map (\<lambda>l. l @ [nl]) ls"
  by (induction ls) (auto simp: file_lines_line)

lemma splitlines_no_break:
  "\<forall>l\<in>set (splitlines s). \<forall>c\<in>set l. \<not> is_linebreak c"
proof (induction s rule: splitlines.induct)
  case 1
  then show ?case by simp
next
  case (2 c)
  then show ?case by simp
next
  case (3 c d ds)
  show ?case
  proof (cases "c = CHR 0x0D \<and> d = CHR 0x0A")
    case True
    with 3 show ?thesis by simp
  next
    case False
    note nocrlf = this
    show ?thesis
    proof (cases "is_linebreak c")
      case True
      with nocrlf 3 show ?thesis by simp
    next
      case False
      with nocrlf 3(3) show ?thesis
        by (cases "splitlines (d # ds)") auto
    qed
  qed
qed

lemma splitlines_no_nl: "l \<in> set (splitlines s) \<Longrightarrow> nl \<notin> set l"
  using splitlines_no_break[of s] by (auto simp: is_linebreak_def nl_def)

lemma diff_content_lines:
  "file_lines (diff_content output) =
     map (\<lambda>l. l @ [nl])
       (filter (\<lambda>l. \<not> list_ex (\<lambda>k. startswith l k) derived_keys) (splitlines output))"
  unfolding diff_content_def
  by (rule file_lines_concat) (auto dest: splitlines_no_nl)

lemma derived_key_no_nl: "k \<in> set derived_keys \<Longrightarrow> nl \<notin> set k"
  by (auto simp: derived_keys_def nl_def)

lemma diff_content_no_derived:
  assumes "line \<in> set (file_lines (diff_content output))" and "k \<in> set derived_keys"
  shows "\<not> startswith line k"
proof
  assume s: "startswith line k"
  from assms(1) obtain l where l: "line = l @ [nl]" "l \<in> set (splitlines output)"
    "\<not> list_ex (\<lambda>k. startswith l k) derived_keys"
    by (auto simp: diff_content_lines)
  from s l(1) have "prefix k (l @ [nl])" by (simp add: startswith_def)
  then have "k = l @ [nl] \<or> prefix k l" by (simp add: prefix_snoc)
  with derived_key_no_nl[OF assms(2)] have "prefix k l" by auto
  with l(3) assms(2) show False by (auto simp: list_ex_iff startswith_def)
qed

lemma config_lede_unchanged:
  assumes "get_config_paths b env = Inr (authored, generated)"
    and "files w generated = Some f0"
    and "subprocess_run env (builder_working_dir b) [''make'', ''menuconfig''] w = (w1, Inr out1)"
    and "files w1 generated = Some f1"
    and "mtime f1 = mtime f0"
  shows "config_lede b env w =
     (fst (run b env [''make'', ''menuconfig''] w)
        @ [Log Info ''Configuration file has not been changed''], w1, None)"
  using assms by (simp add: config_lede_def run_def)

lemma config_lede_changed:
  assumes "get_config_paths b env = Inr (authored, generated)"
    and "files w generated = Some f0"
    and "subprocess_run env (builder_working_dir b) [''make'', ''menuconfig''] w = (w1, Inr out1)"
    and "files w1 generated = Some f1"
    and "mtime f1 \<noteq> mtime f0"
    and "subprocess_run env (builder_working_dir b)
           [path_join ''scripts'' [''diffconfig.sh'']] (open_w w1 authored) = (w2, Inr out)"
  shows "snd (config_lede b env w) = (close_w w2 authored (diff_content out), None)"
  using assms by (simp add: config_lede_def run_def)

text \<open>
  Claim C6. Let the interactive tool run without an error. Where the modification time of
  the \<^verbatim>\<open>.config\<close> of the build tree is afterwards what it was before, the method
  returns with the world as the tool left it and opens no file for writing. Otherwise,
  where \<^verbatim>\<open>diffconfig.sh\<close> runs without an error, the file named by \<^verbatim>\<open>build.config\<close> is
  overwritten: its lines are the lines of the extracted diff that start with neither
  derived key, each ended by a newline, so none of its lines starts with a derived key.
\<close>

theorem config_lede_round_trip:
  assumes "get_config_paths b env = Inr (authored, generated)"
    and "files w generated = Some f0"
    and "subprocess_run env (builder_working_dir b) [''make'', ''menuconfig''] w = (w1, Inr out1)"
    and "files w1 generated = Some f1"
  shows "case config_lede b env w of
           (evs, w', res) \<Rightarrow>
             (mtime f1 = mtime f0 \<longrightarrow>
                w' = w1 \<and> res = None \<and> (\<forall>e\<in>set evs. \<not> writes_to authored e))
           \<and> (mtime f1 \<noteq> mtime f0 \<longrightarrow>
                (\<forall>w2 out.
                   subprocess_run env (builder_working_dir b)
                     [path_join ''scripts'' [''diffconfig.sh'']] (open_w w1 authored)
                     = (w2, Inr out) \<longrightarrow>
                   res = None
                 \<and> w' = close_w w2 authored (diff_content out)
                 \<and> map_option content (files w' authored) = Some (diff_content out)
                 \<and> file_lines (diff_content out) =
                     map (\<lambda>l. l @ [nl])
                       (filter (\<lambda>l. \<not> list_ex (\<lambda>k. startswith l k) derived_keys)
                          (splitlines out))
                 \<and> (\<forall>line\<in>set (file_lines (diff_content out)).
                      \<forall>k\<in>set derived_keys. \<not> startswith line k)))"
proof -
  obtain evs w' res where c: "config_lede b env w = (evs, w', res)"
    by (cases "config_lede b env w")
  have same: "mtime f1 = mtime f0 \<longrightarrow>
      w' = w1 \<and> res = None \<and> (\<forall>e\<in>set evs. \<not> writes_to authored e)"
  proof
    assume "mtime f1 = mtime f0"
    from config_lede_unchanged[OF assms this] c
    have "evs = fst (run b env [''make'', ''menuconfig''] w)
        @ [Log Info ''Configuration file has not been changed'']" "w' = w1" "res = None"
      by simp_all
    with run_events[of b env "[''make'', ''menuconfig'']" w authored]
    show "w' = w1 \<and> res = None \<and> (\<forall>e\<in>set evs. \<not> writes_to authored e)"
      by auto
  qed
  have changed: "mtime f1 \<noteq> mtime f0 \<longrightarrow>
     (\<forall>w2 out.
        subprocess_run env (builder_working_dir b)
          [path_join ''scripts'' [''diffconfig.sh'']] (open_w w1 authored) = (w2, Inr out) \<longrightarrow>
        res = None
      \<and> w' = close_w w2 authored (diff_content out)
      \<and> map_option content (files w' authored) = Some (diff_content out)
      \<and> file_lines (diff_content out) =
          map (\<lambda>l. l @ [nl])
            (filter (\<lambda>l. \<not> list_ex (\<lambda>k. startswith l k) derived_keys) (splitlines out))
      \<and> (\<forall>line\<in>set (file_lines (diff_content out)).
           \<forall>k\<in>set derived_keys. \<not> startswith line k))"
  proof (intro impI allI)
    fix w2 out
    assume m: "mtime f1 \<noteq> mtime f0"
      and r: "subprocess_run env (builder_working_dir b)
          [path_join ''scripts'' [''diffconfig.sh'']] (open_w w1 authored) = (w2, Inr out)"
    from config_lede_changed[OF assms m r] c
    have w: "w' = close_w w2 authored (diff_content out)" "res = None" by simp_all
    then have f: "map_option content (files w' authored) = Some (diff_content out)"
      by (simp add: close_w_def)
    from w f diff_content_lines[of out] diff_content_no_derived[of _ out]
    show "res = None
      \<and> w' = close_w w2 authored (diff_content out)
      \<and> map_option content (files w' authored) = Some (diff_content out)
      \<and> file_lines (diff_content out) =
          map (\<lambda>l. l @ [nl])
            (filter (\<lambda>l. \<not> list_ex (\<lambda>k. startswith l k) derived_keys) (splitlines out))
      \<and> (\<forall>line\<in>set (file_lines (diff_content out)).
           \<forall>k\<in>set derived_keys. \<not> startswith line k)"
      by blast
  qed
  from same changed show ?thesis
    unfolding c prod.case by (rule conjI)
qed


text \<open>
  \<^verbatim>\<open>make menuconfig\<close> saves the configuration at time 11; the diff has four lines, two
  of them with derived keys; the authored file is rewritten with the other two.
\<close>

theorem config_lede_round_trip_witness:
  "get_config_paths ex_builder ex_sys
     = Inr (''/src/configs/default.config'', ''/build/lede/.config'')
   \<and> map_option mtime (files ex_world ''/build/lede/.config'') = Some 7
   \<and> map_option mtime (files ex_world_menu ''/build/lede/.config'') = Some 11
   \<and> map_option content
         (files (fst (snd (config_lede ex_builder ex_sys ex_world)))
            ''/src/configs/default.config'')
       = Some (''CONFIG_TARGET_zynq=y'' @ [nl]
               @ ''CONFIG_LIBC='' @ [dq] @ ''glibc'' @ [dq] @ [nl])"
proof -
  have h1: "get_config_paths ex_builder ex_sys
     = Inr (''/src/configs/default.config'', ''/build/lede/.config'')"
    by code_simp
  have h2: "files ex_world ''/build/lede/.config''
     = Some \<lparr>content = ''CONFIG_LIBC='' @ [dq] @ ''musl'' @ [dq] @ [nl], mtime = 7\<rparr>"
    by (simp add: ex_world_def)
  have h3: "subprocess_run ex_sys (builder_working_dir ex_builder) [''make'', ''menuconfig'']
      ex_world = (ex_world_menu, Inr [])"
    by (simp add: ex_sys_def ex_world_menu_def ex_world_def)
  have h4: "files ex_world_menu ''/build/lede/.config''
     = Some \<lparr>content = ''CONFIG_TARGET_zynq=y'' @ [nl], mtime = 11\<rparr>"
    by (simp add: ex_world_menu_def)
  have d: "subprocess_run ex_sys (builder_working_dir ex_builder)
      [path_join ''scripts'' [''diffconfig.sh'']]
      (open_w ex_world_menu ''/src/configs/default.config'')
      = (open_w ex_world_menu ''/src/configs/default.config'', Inr ex_diff)"
    by (simp add: ex_sys_def path_join_def path_join2_def startswith_def)
  have c: "diff_content ex_diff
      = ''CONFIG_TARGET_zynq=y'' @ [nl] @ ''CONFIG_LIBC='' @ [dq] @ ''glibc'' @ [dq] @ [nl]"
    by code_simp
  from config_lede_round_trip[OF h1 h2 h3 h4] d
  have "map_option content
         (files (fst (snd (config_lede ex_builder ex_sys ex_world)))
            ''/src/configs/default.config'') = Some (diff_content ex_diff)"
    by (auto split: prod.splits)
  with h1 h2 h4 c show ?thesis by simp
qed

section \<open>Properties of the deployment\<close>

lemma marker_seen_append [simp]: "marker_seen (xs @ ys) = (marker_seen xs \<or> marker_seen ys)"
  by (simp add: marker_seen_def)


















end
